theory Spec2Isabelle
  imports Main "HOL-Library.Word"
begin

section \<open>Types and the type verifier (package parser, types)\<close>

text \<open>
  The enumeration \<^verbatim>\<open>Void, Int32, String, Float32\<close> (iota constants 0..3 of the integer
  type \<^verbatim>\<open>Type\<close>; no code builds another value, and \<^verbatim>\<open>Verify\<close> would send one to its
  \<^verbatim>\<open>default\<close> case, as it does \<^verbatim>\<open>Float32\<close>) and the expression nodes of the syntax tree. A Go \<^verbatim>\<open>Expression\<close> is an interface
  value, so it can also be \<^verbatim>\<open>nil\<close>: that is \<open>NilExpression\<close>. The \<^verbatim>\<open>int64\<close> of an
  integer literal is a 64-bit word (read signed with \<open>sint\<close>). The \<^verbatim>\<open>float64\<close> of a
  float literal is kept as the literal text that \<^verbatim>\<open>strconv.ParseFloat\<close> is given; no
  property below depends on its numeric value.
\<close>

datatype Type = Void | Int32 | String | Float32

datatype Expression =
    NilExpression
  | FnCall string "Expression list"
  | UnboundedIdentifier string
  | Identifier string Type
  | StringLiteral string
  | IntegerLiteral "64 word"
  | FloatLiteral string
  | InfixExpression Expression string Expression
  | PrefixExpression string Expression

text \<open>
  The errors \<^verbatim>\<open>Verify\<close> can return: the package variable \<^verbatim>\<open>ErrWrongTypeAssigment\<close> and
  the three \<^verbatim>\<open>fmt.Errorf\<close> messages of \<^verbatim>\<open>verifyInt32\<close> and \<^verbatim>\<open>verifyString\<close>.
\<close>

datatype verify_error =
    ErrWrongTypeAssigment
  | ErrInt32InfixOperators
  | ErrInt32PrefixOperators
  | ErrStringInfixOperators

text \<open>
  \<^verbatim>\<open>strings.ContainsAny(s, chars)\<close>: some code point of \<open>chars\<close> occurs in \<open>s\<close>.
\<close>

definition ContainsAny :: "string \<Rightarrow> string \<Rightarrow> bool" where
  "ContainsAny s chars = (\<exists>c \<in> set chars. c \<in> set s)"

fun verifyInt32 :: "Expression \<Rightarrow> verify_error option" where
  "verifyInt32 (Identifier v t) =
     (if t = Int32 then None else Some ErrWrongTypeAssigment)"
| "verifyInt32 (IntegerLiteral v) = None"
| "verifyInt32 (InfixExpression left operator right) =
     (case verifyInt32 left of
        Some err \<Rightarrow> Some err
      | None \<Rightarrow>
          if \<not> ContainsAny operator ''+-*/'' then Some ErrInt32InfixOperators
          else (case verifyInt32 right of Some err \<Rightarrow> Some err | None \<Rightarrow> None))"
| "verifyInt32 (PrefixExpression operator right) =
     (if operator = ''~'' \<or> operator = ''++'' \<or> operator = ''--''
      then Some ErrInt32PrefixOperators
      else (case verifyInt32 right of Some err \<Rightarrow> Some err | None \<Rightarrow> None))"
| "verifyInt32 _ = Some ErrWrongTypeAssigment"

fun verifyString :: "Expression \<Rightarrow> verify_error option" where
  "verifyString (Identifier v t) =
     (if t = String then None else Some ErrWrongTypeAssigment)"
| "verifyString (StringLiteral v) = None"
| "verifyString (InfixExpression left operator right) =
     (case verifyString left of
        Some err \<Rightarrow> Some err
      | None \<Rightarrow>
          if operator \<noteq> ''+'' then Some ErrStringInfixOperators
          else (case verifyString right of Some err \<Rightarrow> Some err | None \<Rightarrow> None))"
| "verifyString _ = Some ErrWrongTypeAssigment"

text \<open>\<^verbatim>\<open>func (t *Type) Verify(st Expression) error\<close>; \<open>None\<close> is the \<^verbatim>\<open>nil\<close> error.\<close>

fun Verify :: "Type \<Rightarrow> Expression \<Rightarrow> verify_error option" where
  "Verify Int32 st = verifyInt32 st"
| "Verify String st = verifyString st"
| "Verify Void st = None"
| "Verify _ st = Some ErrWrongTypeAssigment"


section \<open>The token source (package lexer)\<close>

text \<open>
  Modelled from the spec: the token kinds \<open>COLON\<close>, \<open>RAWTYPE\<close> and \<open>STRING\<close>. The parser
  names \<^verbatim>\<open>lexer.COLON\<close>, \<^verbatim>\<open>lexer.RAWTYPE\<close> and \<^verbatim>\<open>lexer.STRING\<close>, but their declarations are not
  in the lexer source; the spec lists string literals, punctuation and "a raw-type marker
  used for type annotations" among the token kinds, so they are the three last
  constructors here. The others are \<^verbatim>\<open>TokenType\<close> as the source declares it, in the order
  of its iota constants. The scanner below, translated from the source, never produces
  the three added kinds; token sequences that hold them are written out directly.

  \<open>INT_tok\<close> is the source's \<^verbatim>\<open>INT\<close> (the bare name is notation of HOL).
\<close>

datatype TokenType =
    ILLEGAL | EOF | VAR | IDENT | INT_tok | ASSIGN | PLUS | MINUS | STAR | SLASH
  | MAIN | FN | CONTINUE | IF | BREAK | LBRACE | RBRACE | LPAREN | RPAREN | FLOAT
  | SEMICOLON | NEXTLINE | RETURN | COMMA
  | COLON | RAWTYPE | STRING

definition Keywords :: "string \<rightharpoonup> TokenType" where
  "Keywords = map_of
     [(''var'', VAR), (''fn'', FN), (''continue'', CONTINUE), (''if'', IF),
      (''break'', BREAK), (''return'', RETURN)]"

record Token =
  Type :: TokenType
  Literal :: string
  Line :: int
  Column :: int

text \<open>
  The scanner state. \<open>lx_r\<close> is the input the \<^verbatim>\<open>bufio.Reader\<close> has not yet handed out, as
  a list of runes; \<open>lx_last\<close> is the rune that \<^verbatim>\<open>UnreadRune\<close> can still give back: set by a
  successful \<^verbatim>\<open>ReadRune\<close>, cleared by a failed one and by \<^verbatim>\<open>UnreadRune\<close> itself. The input
  is a text in ASCII, one character a rune: \<^verbatim>\<open>ReadRune\<close> decodes UTF-8, so a character
  outside ASCII is one rune in the source and would be several characters here. Every
  token of the language is in ASCII, and no property below scans another text.
\<close>

record Lexer =
  lx_r :: string
  lx_last :: "char option"
  lx_line :: int
  lx_column :: int

definition NewLexer :: "string \<Rightarrow> Lexer" where
  "NewLexer r = \<lparr>lx_r = r, lx_last = None, lx_line = 1, lx_column = 0\<rparr>"

text \<open>\<^verbatim>\<open>read\<close>: the rune 0 on any read error (end of input), else the rune, and the column moves.\<close>

definition read :: "Lexer \<Rightarrow> char \<times> Lexer" where
  "read l =
     (case lx_r l of
        [] \<Rightarrow> (CHR 0x00, l\<lparr>lx_last := None\<rparr>)
      | ch # rest \<Rightarrow>
          (ch, l\<lparr>lx_r := rest, lx_last := Some ch, lx_column := lx_column l + 1\<rparr>))"

text \<open>
  \<^verbatim>\<open>unread\<close>: the error of \<^verbatim>\<open>UnreadRune\<close> is dropped and the column moves back either way.
\<close>

definition unread :: "Lexer \<Rightarrow> Lexer" where
  "unread l =
     (case lx_last l of
        Some ch \<Rightarrow>
          l\<lparr>lx_r := ch # lx_r l, lx_last := None, lx_column := lx_column l - 1\<rparr>
      | None \<Rightarrow> l\<lparr>lx_column := lx_column l - 1\<rparr>)"

definition peek :: "Lexer \<Rightarrow> char \<times> Lexer" where
  "peek l = (case read l of (ch, l1) \<Rightarrow> (ch, unread l1))"

definition isLetter :: "char \<Rightarrow> bool" where
  "isLetter ch = (ch \<in> set ''abcdefghijklmnopqrstuvwxyzABCDEFGHIJKLMNOPQRSTUVWXYZ'')"

definition isDigit :: "char \<Rightarrow> bool" where
  "isDigit ch = (ch \<in> set ''0123456789'')"

definition isWhitespace :: "char \<Rightarrow> bool" where
  "isWhitespace ch = (ch \<in> set [CHR '' '', CHR 0x09, CHR 0x0D])"

text \<open>The loop of \<^verbatim>\<open>readIdent\<close>: letters are appended until a rune that is none.\<close>

function readIdentLoop :: "string \<Rightarrow> Lexer \<Rightarrow> string \<times> Lexer" where
  "readIdentLoop buf l =
     (case read l of (ch, l1) \<Rightarrow>
        if isLetter ch then readIdentLoop (buf @ [ch]) l1 else (buf, unread l1))"
  by pat_completeness auto
termination
  by (relation "measure (\<lambda>(buf, l). length (lx_r l))")
     (auto simp: read_def isLetter_def split: list.splits)

declare readIdentLoop.simps [simp del]

definition readIdent :: "Lexer \<Rightarrow> Token \<times> Lexer" where
  "readIdent l =
     (case read l of (ch, l1) \<Rightarrow>
        case readIdentLoop [ch] l1 of (buf, l2) \<Rightarrow>
          (\<lparr>Type = IDENT, Literal = buf, Line = 0, Column = 0\<rparr>, l2))"

text \<open>The two digit loops of \<^verbatim>\<open>readNumber\<close> are the same loop.\<close>

function readDigitsLoop :: "string \<Rightarrow> Lexer \<Rightarrow> string \<times> Lexer" where
  "readDigitsLoop buf l =
     (case read l of (ch, l1) \<Rightarrow>
        if isDigit ch then readDigitsLoop (buf @ [ch]) l1 else (buf, unread l1))"
  by pat_completeness auto
termination
  by (relation "measure (\<lambda>(buf, l). length (lx_r l))")
     (auto simp: read_def isDigit_def split: list.splits)

declare readDigitsLoop.simps [simp del]

definition readNumber :: "Lexer \<Rightarrow> Token \<times> Lexer" where
  "readNumber l =
     (case read l of (ch, l1) \<Rightarrow>
        case readDigitsLoop [ch] l1 of (buf, l2) \<Rightarrow>
          case peek l2 of (pk, l3) \<Rightarrow>
            if pk = CHR ''.'' then
              (case read l3 of (dot, l4) \<Rightarrow>
                 case readDigitsLoop (buf @ [dot]) l4 of (buf2, l5) \<Rightarrow>
                   (\<lparr>Type = FLOAT, Literal = buf2, Line = 0, Column = 0\<rparr>, l5))
            else (\<lparr>Type = INT_tok, Literal = buf, Line = 0, Column = 0\<rparr>, l3))"

text \<open>
  A token made of the one rune just read, at the column before it
  (\<^verbatim>\<open>Token{Type: t, Literal: string(ch), Line: l.line, Column: l.column - 1}\<close>).
\<close>

definition runeToken :: "TokenType \<Rightarrow> char \<Rightarrow> Lexer \<Rightarrow> Token" where
  "runeToken t ch l =
     \<lparr>Type = t, Literal = [ch], Line = lx_line l, Column = lx_column l - 1\<rparr>"


text \<open>
  \<^verbatim>\<open>NextToken\<close>: the sequence the iterator yields when it is drained, one token per turn
  of its loop, ending with the end-of-input token. The consumer pulls the tokens one
  at a time; the scanner has no other effect, so the list read from its front is the
  same sequence.
\<close>

function NextToken :: "Lexer \<Rightarrow> Token list" where
  "NextToken l =
     (case read l of (ch, l1) \<Rightarrow>
        if ch = CHR 0x0A then
          \<lparr>Type = NEXTLINE, Literal = [ch], Line = lx_line l1, Column = lx_column l1\<rparr>
            # NextToken (l1\<lparr>lx_line := lx_line l1 + 1, lx_column := 0\<rparr>)
        else if isWhitespace ch then NextToken l1
        else if isLetter ch then
          (case readIdent (unread l1) of (tok, l2) \<Rightarrow>
             (let tok1 = tok\<lparr>Line := lx_line l2,
                              Column := lx_column l2 - int (length (Literal tok))\<rparr>
              in (case Keywords (Literal tok1) of
                    Some k \<Rightarrow> tok1\<lparr>Type := k\<rparr>
                  | None \<Rightarrow> tok1)) # NextToken l2)
        else if isDigit ch then
          (case readNumber (unread l1) of (tok, l2) \<Rightarrow>
             tok\<lparr>Line := lx_line l2,
                 Column := lx_column l2 - int (length (Literal tok))\<rparr> # NextToken l2)
        else if ch = CHR ''='' then runeToken ASSIGN ch l1 # NextToken l1
        else if ch = CHR ''+'' then runeToken PLUS ch l1 # NextToken l1
        else if ch = CHR ''-'' then runeToken MINUS ch l1 # NextToken l1
        else if ch = CHR ''*'' then runeToken STAR ch l1 # NextToken l1
        else if ch = CHR ''/'' then runeToken SLASH ch l1 # NextToken l1
        else if ch = CHR ''{'' then runeToken LBRACE ch l1 # NextToken l1
        else if ch = CHR ''}'' then runeToken RBRACE ch l1 # NextToken l1
        else if ch = CHR ''('' then runeToken LPAREN ch l1 # NextToken l1
        else if ch = CHR '')'' then runeToken RPAREN ch l1 # NextToken l1
        else if ch = CHR '';'' then runeToken SEMICOLON ch l1 # NextToken l1
        else if ch = CHR '','' then runeToken COMMA ch l1 # NextToken l1
        else if ch = CHR 0x00 then [\<lparr>Type = EOF, Literal = [], Line = 0, Column = 0\<rparr>]
        else \<lparr>Type = ILLEGAL, Literal = [ch], Line = 0, Column = 0\<rparr> # NextToken l1)"
  by pat_completeness auto
termination
proof -
  have rd: "length (lx_r (snd (read l))) \<le> length (lx_r l)" for l
    by (simp add: read_def split: list.splits)
  have un: "length (lx_r (unread (snd (read l)))) \<le> length (lx_r l)" for l
    by (simp add: read_def unread_def split: list.splits)
  have idl: "length (lx_r (snd (readIdentLoop buf l))) \<le> length (lx_r l)" for buf l
  proof (induction buf l rule: readIdentLoop.induct)
    case (1 buf l)
    show ?case
    proof (cases "isLetter (fst (read l))")
      case True
      with 1 [of "fst (read l)" "snd (read l)"] rd [of l] show ?thesis
        by (subst readIdentLoop.simps) (simp add: case_prod_beta)
    next
      case False
      with un [of l] show ?thesis
        by (subst readIdentLoop.simps) (simp add: case_prod_beta)
    qed
  qed
  have dgl: "length (lx_r (snd (readDigitsLoop buf l))) \<le> length (lx_r l)" for buf l
  proof (induction buf l rule: readDigitsLoop.induct)
    case (1 buf l)
    show ?case
    proof (cases "isDigit (fst (read l))")
      case True
      with 1 [of "fst (read l)" "snd (read l)"] rd [of l] show ?thesis
        by (subst readDigitsLoop.simps) (simp add: case_prod_beta)
    next
      case False
      with un [of l] show ?thesis
        by (subst readDigitsLoop.simps) (simp add: case_prod_beta)
    qed
  qed
  have rd1: "lx_r l \<noteq> [] \<Longrightarrow> length (lx_r (snd (read l))) < length (lx_r l)" for l
    by (simp add: read_def split: list.splits)
  have ident: "lx_r l \<noteq> [] \<Longrightarrow> length (lx_r (snd (readIdent l))) < length (lx_r l)" for l
    using rd1 [of l] idl [of "[fst (read l)]" "snd (read l)"]
    by (simp add: readIdent_def case_prod_beta)
  have pk: "length (lx_r (snd (peek l))) \<le> length (lx_r l)" for l
    using un [of l] by (simp add: peek_def case_prod_beta)
  have number: "lx_r l \<noteq> [] \<Longrightarrow> length (lx_r (snd (readNumber l))) < length (lx_r l)" for l
  proof -
    assume ne: "lx_r l \<noteq> []"
    define l1 where "l1 = snd (read l)"
    define l2 where "l2 = snd (readDigitsLoop [fst (read l)] l1)"
    define l3 where "l3 = snd (peek l2)"
    define l4 where "l4 = snd (read l3)"
    define l5 where "l5 = snd (readDigitsLoop (fst (readDigitsLoop [fst (read l)] l1) @ [fst (read l3)]) l4)"
    have "length (lx_r l1) < length (lx_r l)" using rd1 [OF ne] by (simp add: l1_def)
    moreover have "length (lx_r l2) \<le> length (lx_r l1)" using dgl by (simp add: l2_def)
    moreover have "length (lx_r l3) \<le> length (lx_r l2)" using pk by (simp add: l3_def)
    moreover have "length (lx_r l4) \<le> length (lx_r l3)" using rd by (simp add: l4_def)
    moreover have "length (lx_r l5) \<le> length (lx_r l4)" using dgl by (simp add: l5_def)
    moreover have "snd (readNumber l) = l3 \<or> snd (readNumber l) = l5"
      by (simp add: readNumber_def case_prod_beta l1_def l2_def l3_def l4_def l5_def)
    ultimately show ?thesis by auto
  qed
  have same: "lx_r l \<noteq> [] \<Longrightarrow> lx_r (unread (snd (read l))) = lx_r l" for l
    by (simp add: read_def unread_def split: list.splits)
  have nonempty: "fst (read l) \<noteq> CHR 0x00 \<Longrightarrow> lx_r l \<noteq> []" for l
    by (auto simp: read_def)
  have letter: "isLetter ch \<Longrightarrow> ch \<noteq> CHR 0x00" for ch
    by (auto simp: isLetter_def)
  have digit: "isDigit ch \<Longrightarrow> ch \<noteq> CHR 0x00" for ch
    by (auto simp: isDigit_def)
  have white: "isWhitespace ch \<Longrightarrow> ch \<noteq> CHR 0x00" for ch
    by (auto simp: isWhitespace_def)
  have step: "(ch, l1) = read l \<Longrightarrow> ch \<noteq> CHR 0x00 \<Longrightarrow> length (lx_r l1) < length (lx_r l)"
    for ch l1 l
    using rd1 [of l] nonempty [of l] by (metis fst_conv snd_conv)
  have stepI: "(ch, l1) = read l \<Longrightarrow> isLetter ch \<Longrightarrow> (tok, l2) = readIdent (unread l1)
      \<Longrightarrow> length (lx_r l2) < length (lx_r l)" for ch l1 l tok l2
    using ident [of "unread (snd (read l))"] same [of l] nonempty [of l] letter [of ch]
    by (metis fst_conv snd_conv)
  have stepN: "(ch, l1) = read l \<Longrightarrow> isDigit ch \<Longrightarrow> (tok, l2) = readNumber (unread l1)
      \<Longrightarrow> length (lx_r l2) < length (lx_r l)" for ch l1 l tok l2
    using number [of "unread (snd (read l))"] same [of l] nonempty [of l] digit [of ch]
    by (metis fst_conv snd_conv)
  show ?thesis
    apply (relation "measure (\<lambda>l. length (lx_r l))")
    apply simp
    subgoal for l ch l1 using step [of ch l1 l] by simp
    subgoal for l ch l1 using step [of ch l1 l] white [of ch] by simp
    subgoal for l ch l1 tok l2 using stepI [of ch l1 l tok l2] by simp
    subgoal for l ch l1 tok l2 using stepN [of ch l1 l tok l2] by simp
    using step by simp_all
qed

declare NextToken.simps [simp del]


section \<open>The syntax tree and the parser state (package parser)\<close>

record Argument =
  arg_Name :: string
  arg_Type :: Type

record VarStatement =
  vs_Name :: string
  vs_Value :: Expression
  vs_Type :: Type

record ReassignVarStatement =
  rv_VarName :: string
  rv_Type :: Type
  rv_Value :: Expression

record ReturnStatement =
  rs_Type :: Type
  rs_Value :: Expression

text \<open>
  A \<^verbatim>\<open>Node\<close> is any statement, or an expression used as a statement (the call
  statement). \<^verbatim>\<open>FnStatement\<close> keeps the field names of the source. A \<^verbatim>\<open>nil\<close> slice and an
  empty slice are both the empty list.
\<close>

datatype Node =
    VarStatementNode VarStatement
  | ReassignVarStatementNode ReassignVarStatement
  | FnStatementNode FnStatement
  | ReturnStatementNode ReturnStatement
  | ExpressionNode Expression
and FnStatement =
    FnStatement (Name: string) (Args: "Argument list") (Body: "Node list")
      (ReturnType: Type) (Defined: bool) (ExpressionsToEvaluate: "Expression list")

datatype Program = Program (Statements: "Node list")

text \<open>
  What \<^verbatim>\<open>ErrParser.Err\<close> can hold, one constructor per message of the source, with the
  values the message is formatted from. \<open>ErrWrapped\<close> is an \<^verbatim>\<open>*ErrParser\<close> stored as the
  \<^verbatim>\<open>Err\<close> of another (\<^verbatim>\<open>parseReasignStatement\<close>).
\<close>

datatype cause =
    ErrExpected TokenType TokenType
  | ErrUnexpectedToken string
  | ErrExpectedEndOfStatement string
  | ErrFunctionAlreadyDefined
  | ErrParamsDoNotMatch
  | ErrVerify verify_error
  | ErrVerifyingExpression verify_error
  | ErrMustHaveReturn
  | ErrExpectedReturnType
  | ErrExpectedFunctionIdentifier
  | ErrWrongParamaterType
  | ErrFunctionCallUnexpectedEnd
  | ErrWrapped int int cause

text \<open>
  How a parsing function can end without a result: an error value
  \<^verbatim>\<open>&ErrParser{Line, Column, Err}\<close>; a run-time panic (reading a field through a \<^verbatim>\<open>nil\<close>
  pointer, the \<^verbatim>\<open>panic("unreacheable")\<close> of \<^verbatim>\<open>getTypeFromLiteral\<close>, or an index out of
  range), which no caller recovers; or, in this model only, the recursion bound \<open>OutOfFuel\<close>.
\<close>

datatype error =
    ErrParser int int cause
  | PanicNilDereference
  | PanicUnreacheable
  | PanicIndexOutOfRange
  | OutOfFuel

text \<open>
  Where a caller replaces the error of a callee by one of its own
  (\<^verbatim>\<open>if err != nil { return nil, &ErrParser{...} }\<close>), only an error value is replaced: a
  panic passes through, and so does \<open>OutOfFuel\<close>.
\<close>

definition replaceErr :: "error \<Rightarrow> error \<Rightarrow> error" where
  "replaceErr e new = (case e of ErrParser l c m \<Rightarrow> new | _ \<Rightarrow> e)"

text \<open>
  The parser. \<open>tokens\<close> is what the pulled iterator has not yet handed out. The parser
  is a pointer that every method mutates in place, so each function below returns the
  parser state next to its result or error.
\<close>

record Parser =
  tokens :: "Token list"
  curToken :: Token
  peekToken :: Token
  vars :: "string \<rightharpoonup> VarStatement"
  fns :: "string \<rightharpoonup> FnStatement"

definition nextToken :: "Parser \<Rightarrow> Parser" where
  "nextToken p =
     (let p1 = p\<lparr>curToken := peekToken p\<rparr> in
      if Type (curToken p1) = EOF then p1
      else (case tokens p1 of
              tok # rest \<Rightarrow> p1\<lparr>peekToken := tok, tokens := rest\<rparr>
            | [] \<Rightarrow> p1\<lparr>peekToken := \<lparr>Type = EOF, Literal = [], Line = 0, Column = 0\<rparr>\<rparr>))"

definition NewParser :: "Token list \<Rightarrow> Parser" where
  "NewParser toks =
     nextToken (nextToken
       \<lparr>tokens = toks,
        curToken = \<lparr>Type = ILLEGAL, Literal = [], Line = 0, Column = 0\<rparr>,
        peekToken = \<lparr>Type = ILLEGAL, Literal = [], Line = 0, Column = 0\<rparr>,
        vars = Map.empty, fns = Map.empty\<rparr>)"

definition consumeOrFail :: "TokenType \<Rightarrow> Parser \<Rightarrow> (error + unit) \<times> Parser" where
  "consumeOrFail expected p =
     (let p1 = nextToken p in
      if Type (curToken p1) \<noteq> expected
      then (Inl (ErrParser (Line (curToken p1)) (Column (curToken p1))
                   (ErrExpected expected (Type (curToken p1)))), p1)
      else (Inr (), p1))"

text \<open>
  The precedence levels (iota constants from 1). \<open>SUM_prec\<close> is the source's \<^verbatim>\<open>SUM\<close> (the
  bare name is notation of HOL).
\<close>

definition LOWEST :: nat where "LOWEST = 1"
definition SUM_prec :: nat where "SUM_prec = 2"
definition PRODUCT :: nat where "PRODUCT = 3"
definition PREFIX :: nat where "PREFIX = 4"
definition CALL :: nat where "CALL = 5"

definition precedences :: "TokenType \<rightharpoonup> nat" where
  "precedences = map_of
     [(PLUS, SUM_prec), (MINUS, SUM_prec), (SLASH, PRODUCT), (STAR, PRODUCT), (LPAREN, CALL)]"

definition curPrecedence :: "Parser \<Rightarrow> nat" where
  "curPrecedence p =
     (case precedences (Type (curToken p)) of Some pr \<Rightarrow> pr | None \<Rightarrow> LOWEST)"

definition peekPrecedence :: "Parser \<Rightarrow> nat" where
  "peekPrecedence p =
     (case precedences (Type (peekToken p)) of Some pr \<Rightarrow> pr | None \<Rightarrow> LOWEST)"

definition peekTokenIs :: "Parser \<Rightarrow> TokenType \<Rightarrow> bool" where
  "peekTokenIs p t = (Type (peekToken p) = t)"

definition endOfStatement :: "TokenType \<Rightarrow> bool" where
  "endOfStatement t = (t = SEMICOLON \<or> t = NEXTLINE \<or> t = EOF)"

definition getTypeFromLiteral :: "string \<Rightarrow> error + Type" where
  "getTypeFromLiteral literal =
     (if literal = ''int32'' then Inr Int32
      else if literal = ''string'' then Inr String
      else Inl PanicUnreacheable)"

subsection \<open>Integer literals: \<^verbatim>\<open>strconv.ParseInt(literal, 10, 64)\<close>\<close>

text \<open>
  The standard library's conversion, for base 10 and 64 bits. \<^verbatim>\<open>ParseUint\<close> accumulates
  in a \<^verbatim>\<open>uint64\<close> (the wrap-around of its addition is written out) and stops with the
  largest value at the first digit that would overflow; \<^verbatim>\<open>ParseInt\<close> strips a sign and
  clamps to the \<^verbatim>\<open>int64\<close> range. Both return the value next to the error.
\<close>

datatype NumError = ErrSyntax | ErrRange

definition maxUint64 :: int where
  "maxUint64 = 2 ^ 64 - 1"

fun ParseUint_loop :: "int \<Rightarrow> string \<Rightarrow> int \<times> NumError option" where
  "ParseUint_loop n [] = (n, None)"
| "ParseUint_loop n (c # cs) =
     (if \<not> (48 \<le> (of_char c :: int) \<and> (of_char c :: int) \<le> 57) then (0, Some ErrSyntax)
      else if n \<ge> maxUint64 div 10 + 1 then (maxUint64, Some ErrRange)
      else (let n10 = n * 10;
                n1 = (n10 + (of_char c - 48)) mod 2 ^ 64
            in if n1 < n10 \<or> n1 > maxUint64 then (maxUint64, Some ErrRange)
               else ParseUint_loop n1 cs))"

definition ParseUint :: "string \<Rightarrow> int \<times> NumError option" where
  "ParseUint s = (if s = [] then (0, Some ErrSyntax) else ParseUint_loop 0 s)"

definition ParseInt :: "string \<Rightarrow> int \<times> NumError option" where
  "ParseInt s =
     (if s = [] then (0, Some ErrSyntax)
      else
        (let neg = (hd s = CHR ''-'');
             s1 = (if hd s = CHR ''+'' \<or> hd s = CHR ''-'' then tl s else s)
         in case ParseUint s1 of (un, err) \<Rightarrow>
              if err = Some ErrSyntax then (0, err)
              else if \<not> neg \<and> un \<ge> 2 ^ 63 then (2 ^ 63 - 1, Some ErrRange)
              else if neg \<and> un > 2 ^ 63 then (- (2 ^ 63), Some ErrRange)
              else (if neg then - un else un, None)))"

text \<open>\<^verbatim>\<open>value, _ := strconv.ParseInt(...)\<close>: the error is dropped, the value kept.\<close>

definition parseIntegerLiteral :: "Parser \<Rightarrow> Expression" where
  "parseIntegerLiteral p = IntegerLiteral (word_of_int (fst (ParseInt (Literal (curToken p)))))"

definition parseFloatLiteral :: "Parser \<Rightarrow> Expression" where
  "parseFloatLiteral p = FloatLiteral (Literal (curToken p))"

text \<open>
  For stating what \<^verbatim>\<open>ParseInt\<close> computes: the number a string of decimal digits denotes
  (\<open>decimal_from n\<close> continues from the value \<open>n\<close> of the digits already read).
\<close>

definition decimal_from :: "int \<Rightarrow> string \<Rightarrow> int" where
  "decimal_from n cs = foldl (\<lambda>n c. n * 10 + (of_char c - 48)) n cs"

definition decimal :: "string \<Rightarrow> int" where
  "decimal s = decimal_from 0 s"



subsection \<open>Expressions\<close>

text \<open>
  The expression functions call each other, and every call consumes input only while
  input is left; the first argument bounds the depth of the calls (each call passes on
  one less), and \<open>OutOfFuel\<close> is the answer when the bound is reached. The debugging
  output of the source (\<^verbatim>\<open>fmt.Println\<close>, \<^verbatim>\<open>fmt.Printf\<close>) is not modelled.

  \<open>parseExpression\<close> is the \<^verbatim>\<open>switch\<close> on the current token; \<open>parseExpression_loop\<close> is its
  \<^verbatim>\<open>for\<close> loop with the final \<^verbatim>\<open>tt.Verify(leftExp)\<close>. In the \<^verbatim>\<open>IDENT\<close> case the source reads
  \<^verbatim>\<open>varStmt.Name\<close> in both branches; when the name is not in \<^verbatim>\<open>p.vars\<close> the map lookup gave
  the \<^verbatim>\<open>nil\<close> pointer, and reading its field panics.

  \<open>parseFnCallExpression\<close>: \<open>fnCall_defined_loop\<close> is the loop of the branch where
  \<^verbatim>\<open>p.fns\<close> already has the name, \<open>fnCall_undefined_loop\<close> the loop of the other branch,
  which ends by recording the placeholder with the captured expressions.
\<close>

function (sequential) parseExpression :: "nat \<Rightarrow> nat \<Rightarrow> Type \<Rightarrow> Parser \<Rightarrow> (error + Expression) \<times> Parser"
and parseExpression_loop ::
  "nat \<Rightarrow> nat \<Rightarrow> Type \<Rightarrow> Expression \<Rightarrow> Parser \<Rightarrow> (error + Expression) \<times> Parser"
and parseGroupedExpression :: "nat \<Rightarrow> Type \<Rightarrow> Parser \<Rightarrow> (error + Expression) \<times> Parser"
and parseInfixExpression ::
  "nat \<Rightarrow> Expression \<Rightarrow> Type \<Rightarrow> Parser \<Rightarrow> (error + Expression) \<times> Parser"
and parseFnCallExpression ::
  "nat \<Rightarrow> Expression \<Rightarrow> Type \<Rightarrow> Parser \<Rightarrow> (error + Expression) \<times> Parser"
and fnCall_defined_loop ::
  "nat \<Rightarrow> FnStatement \<Rightarrow> string \<Rightarrow> nat \<Rightarrow> Expression list \<Rightarrow> Parser
     \<Rightarrow> (error + Expression) \<times> Parser"
and fnCall_undefined_loop ::
  "nat \<Rightarrow> FnStatement \<Rightarrow> string \<Rightarrow> Expression list \<Rightarrow> Parser
     \<Rightarrow> (error + Expression) \<times> Parser"
where
  "parseExpression 0 precedence tt p = (Inl OutOfFuel, p)"
| "parseExpression (Suc n) precedence tt p =
     (if Type (curToken p) = INT_tok then
        parseExpression_loop n precedence tt (parseIntegerLiteral p) p
      else if Type (curToken p) = STRING then
        parseExpression_loop n precedence tt (StringLiteral (Literal (curToken p))) p
      else if Type (curToken p) = FLOAT then
        parseExpression_loop n precedence tt (parseFloatLiteral p) p
      else if Type (curToken p) = IDENT then
        (case vars p (Literal (curToken p)) of
           Some varStmt \<Rightarrow>
             parseExpression_loop n precedence tt
               (Identifier (vs_Name varStmt) (vs_Type varStmt)) p
         | None \<Rightarrow> (Inl PanicNilDereference, p))
      else if Type (curToken p) = LPAREN then
        (case parseGroupedExpression n tt p of
           (Inl err, p1) \<Rightarrow> (Inl err, p1)
         | (Inr expression, p1) \<Rightarrow> parseExpression_loop n precedence tt expression p1)
      else (Inr NilExpression, p))"
| "parseExpression_loop 0 precedence tt leftExp p = (Inl OutOfFuel, p)"
| "parseExpression_loop (Suc n) precedence tt leftExp p =
     (if \<not> peekTokenIs p SEMICOLON \<and> precedence < peekPrecedence p then
        (if Type (peekToken p) = PLUS \<or> Type (peekToken p) = MINUS
            \<or> Type (peekToken p) = SLASH \<or> Type (peekToken p) = STAR then
           (case parseInfixExpression n leftExp tt (nextToken p) of
              (Inl err, p1) \<Rightarrow> (Inl err, p1)
            | (Inr exp, p1) \<Rightarrow> parseExpression_loop n precedence tt exp p1)
         else if Type (peekToken p) = LPAREN then
           (case parseFnCallExpression n leftExp tt (nextToken p) of
              (Inl err, p1) \<Rightarrow> (Inl err, p1)
            | (Inr exp, p1) \<Rightarrow> parseExpression_loop n precedence tt exp p1)
         else (Inr leftExp, p))
      else
        (case Verify tt leftExp of
           Some err \<Rightarrow>
             (Inl (ErrParser (Line (curToken p)) (Column (curToken p))
                     (ErrVerifyingExpression err)), p)
         | None \<Rightarrow> (Inr leftExp, p)))"
| "parseGroupedExpression 0 tt p = (Inl OutOfFuel, p)"
| "parseGroupedExpression (Suc n) tt p =
     (case parseExpression n LOWEST tt (nextToken p) of
        (Inl err, p1) \<Rightarrow> (Inl err, p1)
      | (Inr exp, p1) \<Rightarrow>
          (case consumeOrFail RPAREN p1 of
             (Inl err, p2) \<Rightarrow> (Inl err, p2)
           | (Inr u, p2) \<Rightarrow> (Inr exp, p2)))"
| "parseInfixExpression 0 left tt p = (Inl OutOfFuel, p)"
| "parseInfixExpression (Suc n) left tt p =
     (case parseExpression n (curPrecedence p) tt (nextToken p) of
        (Inl err, p1) \<Rightarrow> (Inl err, p1)
      | (Inr exp, p1) \<Rightarrow> (Inr (InfixExpression left (Literal (curToken p)) exp), p1))"
| "parseFnCallExpression 0 left tt p = (Inl OutOfFuel, p)"
| "parseFnCallExpression (Suc n) left tt p =
     (case left of
        UnboundedIdentifier fnName \<Rightarrow>
          (let ok = (fns p fnName \<noteq> None);
               fnStmt = (case fns p fnName of
                           Some f \<Rightarrow> f
                         | None \<Rightarrow> FnStatement fnName [] [] tt False [])
           in if Type (curToken p) = RPAREN then
                (let p1 = nextToken p
                 in (Inr (FnCall fnName []),
                     if \<not> ok then p1\<lparr>fns := (fns p1)(fnName \<mapsto> fnStmt)\<rparr> else p1))
              else if ok then
                fnCall_defined_loop n fnStmt fnName 0
                  (replicate (length (Args fnStmt)) NilExpression) p
              else fnCall_undefined_loop n fnStmt fnName [] p)
      | _ \<Rightarrow>
          (Inl (ErrParser (Line (curToken p)) (Column (curToken p))
                  ErrExpectedFunctionIdentifier), p))"
| "fnCall_defined_loop 0 fnStmt fnName idx params p = (Inl OutOfFuel, p)"
| "fnCall_defined_loop (Suc n) fnStmt fnName idx params p =
     (if idx < length (Args fnStmt) then
        (case parseExpression n LOWEST (arg_Type (Args fnStmt ! idx)) p of
           (Inl err, p1) \<Rightarrow>
             (Inl (replaceErr err
                     (ErrParser (Line (curToken p1)) (Column (curToken p1))
                        ErrWrongParamaterType)), p1)
         | (Inr arg, p1) \<Rightarrow>
             if peekTokenIs p1 RPAREN then
               (Inr (FnCall fnName (params[idx := arg])), nextToken p1)
             else
               (case consumeOrFail COMMA p1 of
                  (Inl err, p2) \<Rightarrow> (Inl err, p2)
                | (Inr u, p2) \<Rightarrow>
                    fnCall_defined_loop n fnStmt fnName (idx + 1) (params[idx := arg]) p2))
      else
        (Inl (ErrParser (Line (curToken p)) (Column (curToken p))
                ErrFunctionCallUnexpectedEnd), p))"
| "fnCall_undefined_loop 0 fnStmt fnName params p = (Inl OutOfFuel, p)"
| "fnCall_undefined_loop (Suc n) fnStmt fnName params p =
     (case parseExpression n LOWEST Void p of
        (Inl err, p1) \<Rightarrow>
          (Inl (replaceErr err
                  (ErrParser (Line (curToken p1)) (Column (curToken p1))
                     ErrWrongParamaterType)), p1)
      | (Inr arg, p1) \<Rightarrow>
          if peekTokenIs p1 RPAREN then
            (let p2 = nextToken p1;
                 recorded = FnStatement (Name fnStmt) (Args fnStmt) (Body fnStmt)
                              (ReturnType fnStmt) (Defined fnStmt) (params @ [arg])
             in (Inr (FnCall fnName (params @ [arg])),
                 p2\<lparr>fns := (fns p2)(fnName \<mapsto> recorded)\<rparr>))
          else
            (case consumeOrFail COMMA p1 of
               (Inl err, p2) \<Rightarrow> (Inl err, p2)
             | (Inr u, p2) \<Rightarrow> fnCall_undefined_loop n fnStmt fnName (params @ [arg]) p2))"
  by pat_completeness auto
termination
  by (relation "measure (\<lambda>x. case x of
        Inl (Inl (n, _)) \<Rightarrow> n
      | Inl (Inr (Inl (n, _))) \<Rightarrow> n
      | Inl (Inr (Inr (n, _))) \<Rightarrow> n
      | Inr (Inl (Inl (n, _))) \<Rightarrow> n
      | Inr (Inl (Inr (n, _))) \<Rightarrow> n
      | Inr (Inr (Inl (n, _))) \<Rightarrow> n
      | Inr (Inr (Inr (n, _))) \<Rightarrow> n)") auto

subsection \<open>Statements\<close>

text \<open>
  \<^verbatim>\<open>parseVarStatement\<close>. \<open>parseVarType\<close> is its optional type annotation: without a colon
  the type stays the zero value \<^verbatim>\<open>Void\<close>.
\<close>

definition parseVarType :: "Parser \<Rightarrow> (error + Type) \<times> Parser" where
  "parseVarType p =
     (if Type (peekToken p) = COLON then
        (case consumeOrFail RAWTYPE (nextToken p) of
           (Inl err, p1) \<Rightarrow> (Inl err, p1)
         | (Inr u, p1) \<Rightarrow>
             (case getTypeFromLiteral (Literal (curToken p1)) of
                Inl err \<Rightarrow> (Inl err, p1)
              | Inr ty \<Rightarrow> (Inr ty, p1)))
      else (Inr Void, p))"

definition parseVarStatement :: "nat \<Rightarrow> Parser \<Rightarrow> (error + VarStatement) \<times> Parser" where
  "parseVarStatement n p =
     (case consumeOrFail IDENT p of
        (Inl err, p1) \<Rightarrow> (Inl err, p1)
      | (Inr u, p1) \<Rightarrow>
          (case parseVarType p1 of
             (Inl err, p2) \<Rightarrow> (Inl err, p2)
           | (Inr ty, p2) \<Rightarrow>
               (case consumeOrFail ASSIGN p2 of
                  (Inl err, p3) \<Rightarrow> (Inl err, p3)
                | (Inr u, p3) \<Rightarrow>
                    (case parseExpression n LOWEST ty (nextToken p3) of
                       (Inl err, p4) \<Rightarrow> (Inl err, p4)
                     | (Inr expression, p4) \<Rightarrow>
                         if \<not> endOfStatement (Type (peekToken p4)) then
                           (Inl (ErrParser (Line (curToken p4))
                                   (Column (curToken p4) + int (length (Literal (curToken p4))))
                                   (ErrExpectedEndOfStatement (Literal (curToken p4)))), p4)
                         else
                           (let stmt = \<lparr>vs_Name = Literal (curToken p1),
                                        vs_Value = expression, vs_Type = ty\<rparr>
                            in (Inr stmt,
                                nextToken (p4\<lparr>vars := (vars p4)(vs_Name stmt \<mapsto> stmt)\<rparr>)))))))"

definition parseReasignStatement ::
  "nat \<Rightarrow> VarStatement \<Rightarrow> Parser \<Rightarrow> (error + ReassignVarStatement) \<times> Parser" where
  "parseReasignStatement n old p =
     (case consumeOrFail ASSIGN p of
        (Inl err, p1) \<Rightarrow> (Inl err, p1)
      | (Inr u, p1) \<Rightarrow>
          (case parseExpression n LOWEST (vs_Type old) (nextToken p1) of
             (Inl err, p2) \<Rightarrow>
               (Inl (case err of
                       ErrParser l c m \<Rightarrow>
                         ErrParser (Line (curToken p2))
                           (Column (curToken p2) + int (length (Literal (curToken p2))))
                           (ErrWrapped l c m)
                     | _ \<Rightarrow> err), p2)
           | (Inr newExp, p2) \<Rightarrow>
               if \<not> endOfStatement (Type (peekToken p2)) then
                 (Inl (ErrParser (Line (curToken p2))
                         (Column (curToken p2) + int (length (Literal (curToken p2))))
                         (ErrExpectedEndOfStatement (Literal (curToken p2)))), p2)
               else
                 (Inr \<lparr>rv_VarName = vs_Name old, rv_Type = vs_Type old, rv_Value = newExp\<rparr>,
                  nextToken p2)))"

definition parseReturnStatement ::
  "nat \<Rightarrow> Type \<Rightarrow> Parser \<Rightarrow> (error + ReturnStatement) \<times> Parser" where
  "parseReturnStatement n tt p =
     (case parseExpression n LOWEST tt (nextToken p) of
        (Inl err, p1) \<Rightarrow> (Inl err, p1)
      | (Inr expression, p1) \<Rightarrow>
          if \<not> endOfStatement (Type (peekToken p1)) then
            (Inl (ErrParser (Line (curToken p1))
                    (Column (curToken p1) + int (length (Literal (curToken p1))))
                    (ErrExpectedEndOfStatement (Literal (curToken p1)))), p1)
          else (Inr \<lparr>rs_Type = tt, rs_Value = expression\<rparr>, nextToken p1))"

text \<open>
  \<^verbatim>\<open>parseFnStatement\<close> is translated in the order of the source, in five parts. The first:
  the name, the test for a function already marked \<^verbatim>\<open>Defined\<close>, the left parenthesis and
  the loop over the arguments (\<open>parseFnArgs\<close>). Every turn of that loop that goes on has
  consumed tokens, which is its termination.
\<close>

function parseFnArgs :: "Argument list \<Rightarrow> Parser \<Rightarrow> (error + Argument list) \<times> Parser" where
  "parseFnArgs args p =
     (if peekTokenIs p RPAREN then (Inr args, nextToken p)
      else
        (case consumeOrFail IDENT p of
           (Inl err, p1) \<Rightarrow> (Inl err, p1)
         | (Inr u, p1) \<Rightarrow>
             (case consumeOrFail COLON p1 of
                (Inl err, p2) \<Rightarrow> (Inl err, p2)
              | (Inr u, p2) \<Rightarrow>
                  (case consumeOrFail RAWTYPE p2 of
                     (Inl err, p3) \<Rightarrow> (Inl err, p3)
                   | (Inr u, p3) \<Rightarrow>
                       (case getTypeFromLiteral (Literal (curToken p3)) of
                          Inl err \<Rightarrow> (Inl err, p3)
                        | Inr ty \<Rightarrow>
                            if Type (peekToken p3) = RPAREN then
                              (Inr (args @ [\<lparr>arg_Name = Literal (curToken p1), arg_Type = ty\<rparr>]),
                               nextToken p3)
                            else
                              (case consumeOrFail COMMA p3 of
                                 (Inl err, p4) \<Rightarrow> (Inl err, p4)
                               | (Inr u, p4) \<Rightarrow>
                                   parseFnArgs
                                     (args @ [\<lparr>arg_Name = Literal (curToken p1), arg_Type = ty\<rparr>])
                                     p4))))))"
  by pat_completeness auto
termination
proof -
  define m :: "Parser \<Rightarrow> nat"
    where "m = (\<lambda>p. length (tokens p) + (if Type (peekToken p) = EOF then 0 else 1))"
  have le: "m (nextToken p) \<le> m p" for p
    by (auto simp: m_def nextToken_def Let_def split: list.splits)
  have lt: "Type (peekToken p) \<noteq> EOF \<Longrightarrow> m (nextToken p) < m p" for p
    by (auto simp: m_def nextToken_def Let_def split: list.splits)
  have c_le: "(r, p1) = consumeOrFail t p \<Longrightarrow> m p1 \<le> m p" for r p1 t p
    using le [of p] by (auto simp: consumeOrFail_def Let_def split: if_splits)
  have c_lt: "(Inr u, p1) = consumeOrFail t p \<Longrightarrow> t \<noteq> EOF \<Longrightarrow> m p1 < m p" for u p1 t p
    using lt [of p] by (auto simp: consumeOrFail_def nextToken_def Let_def split: if_splits)
  show ?thesis
  proof (relation "measure (\<lambda>(args, p). m p)", simp, goal_cases)
    case (1 args p x p1 u x2 p2 u2 x3 p3 u3 ty x4 p4 u4)
    have "m p1 < m p" using c_lt [of u p1 IDENT p] 1 by simp
    moreover have "m p2 \<le> m p1" using c_le [of "Inr u2" p2 COLON p1] 1 by simp
    moreover have "m p3 \<le> m p2" using c_le [of "Inr u3" p3 RAWTYPE p2] 1 by simp
    moreover have "m p4 \<le> m p3" using c_le [of "Inr u4" p4 COMMA p3] 1 by simp
    ultimately show ?case by simp
  qed
qed

declare parseFnArgs.simps [simp del]

definition parseFnHeader :: "Parser \<Rightarrow> (error + string \<times> Argument list) \<times> Parser" where
  "parseFnHeader p =
     (case consumeOrFail IDENT p of
        (Inl err, p1) \<Rightarrow> (Inl err, p1)
      | (Inr u, p1) \<Rightarrow>
          if (case fns p1 (Literal (curToken p1)) of
                Some fnStmt \<Rightarrow> Defined fnStmt
              | None \<Rightarrow> False)
          then (Inl (ErrParser (Line (curToken p1)) (Column (curToken p1))
                       ErrFunctionAlreadyDefined), p1)
          else
            (case consumeOrFail LPAREN p1 of
               (Inl err, p2) \<Rightarrow> (Inl err, p2)
             | (Inr u, p2) \<Rightarrow>
                 (case parseFnArgs [] p2 of
                    (Inl err, p3) \<Rightarrow> (Inl err, p3)
                  | (Inr args, p3) \<Rightarrow> (Inr (Literal (curToken p1), args), p3))))"

text \<open>
  The second part, the reconciliation with a placeholder left by an earlier call: when
  \<^verbatim>\<open>p.fns\<close> has the name and that record is not \<^verbatim>\<open>Defined\<close>, the number of recorded
  expressions is compared with the number of arguments, then each argument's type verifies
  the expression at its index, in order (\<open>verifyArgs\<close> is that \<^verbatim>\<open>range\<close> loop, walking
  both slices from index 0; an index past the recorded expressions would panic, which
  the comparison of the lengths excludes).
\<close>

fun verifyArgs :: "Argument list \<Rightarrow> Expression list \<Rightarrow> Parser \<Rightarrow> error option" where
  "verifyArgs [] es p = None"
| "verifyArgs (arg # args) [] p = Some PanicIndexOutOfRange"
| "verifyArgs (arg # args) (e # es) p =
     (case Verify (arg_Type arg) e of
        Some err \<Rightarrow>
          Some (ErrParser (Line (curToken p)) (Column (curToken p)) (ErrVerify err))
      | None \<Rightarrow> verifyArgs args es p)"

definition reconcile :: "string \<Rightarrow> Argument list \<Rightarrow> Parser \<Rightarrow> error option" where
  "reconcile name args p =
     (case fns p name of
        None \<Rightarrow> None
      | Some fnStmt \<Rightarrow>
          if Defined fnStmt then None
          else if length (ExpressionsToEvaluate fnStmt) \<noteq> length args then
            Some (ErrParser (Line (curToken p)) (Column (curToken p)) ErrParamsDoNotMatch)
          else verifyArgs args (ExpressionsToEvaluate fnStmt) p)"

text \<open>The third part: the optional return type; the flag is \<^verbatim>\<open>mustHaveReturn\<close>.\<close>

definition parseFnReturnType :: "Parser \<Rightarrow> (error + bool \<times> Type) \<times> Parser" where
  "parseFnReturnType p =
     (if Type (peekToken p) = COLON then
        (case consumeOrFail RAWTYPE (nextToken p) of
           (Inl err, p1) \<Rightarrow> (Inl err, p1)
         | (Inr u, p1) \<Rightarrow>
             (case getTypeFromLiteral (Literal (curToken p1)) of
                Inl err \<Rightarrow> (Inl err, p1)
              | Inr ty \<Rightarrow> (Inr (True, ty), p1)))
      else (Inr (False, Void), p))"

text \<open>
  The fifth part, after the body (the fourth, \<open>parseFnBody\<close> below): the test that a
  function with a declared return type ends in a return statement of that type.
\<close>

definition checkReturn :: "bool \<Rightarrow> Type \<Rightarrow> Node list \<Rightarrow> Parser \<Rightarrow> error option" where
  "checkReturn mustHaveReturn returnType body p =
     (if mustHaveReturn then
        (if length body = 0 then
           Some (ErrParser (Line (curToken p)) (Column (curToken p)) ErrMustHaveReturn)
         else
           (case last body of
              ReturnStatementNode inner \<Rightarrow>
                if rs_Type inner \<noteq> returnType then
                  Some (ErrParser (Line (curToken p)) (Column (curToken p))
                          ErrExpectedReturnType)
                else None
            | _ \<Rightarrow>
                Some (ErrParser (Line (curToken p)) (Column (curToken p)) ErrMustHaveReturn)))
      else None)"


text \<open>
  \<open>parseStatement\<close>, \<open>parseFnStatement\<close> and the loop over the body of a function
  (\<open>parseFnBody\<close>, the fourth part) call each other; the bound on the depth of the calls
  is as for the expressions. The record \<open>parseFnStatement\<close> builds starts as
  \<^verbatim>\<open>&FnStatement{}\<close> and the source assigns \<^verbatim>\<open>Name\<close>, \<^verbatim>\<open>Args\<close>, \<^verbatim>\<open>ReturnType\<close> and \<^verbatim>\<open>Body\<close>;
  \<^verbatim>\<open>Defined\<close> and \<^verbatim>\<open>ExpressionsToEvaluate\<close> keep their zero values.
\<close>

fun parseStatement :: "nat \<Rightarrow> Type \<Rightarrow> Parser \<Rightarrow> (error + Node) \<times> Parser"
and parseFnStatement :: "nat \<Rightarrow> Parser \<Rightarrow> (error + FnStatement) \<times> Parser"
and parseFnBody :: "nat \<Rightarrow> Type \<Rightarrow> Node list \<Rightarrow> Parser \<Rightarrow> (error + Node list) \<times> Parser"
where
  "parseStatement 0 tt p = (Inl OutOfFuel, p)"
| "parseStatement (Suc n) tt p =
     (if Type (curToken p) = VAR then
        (case parseVarStatement n p of
           (Inl err, p1) \<Rightarrow> (Inl err, p1)
         | (Inr stmt, p1) \<Rightarrow> (Inr (VarStatementNode stmt), p1))
      else if Type (curToken p) = FN then
        (case parseFnStatement n p of
           (Inl err, p1) \<Rightarrow> (Inl err, p1)
         | (Inr stmt, p1) \<Rightarrow> (Inr (FnStatementNode stmt), p1))
      else if Type (curToken p) = RETURN then
        (case parseReturnStatement n tt p of
           (Inl err, p1) \<Rightarrow> (Inl err, p1)
         | (Inr stmt, p1) \<Rightarrow> (Inr (ReturnStatementNode stmt), p1))
      else if Type (curToken p) = IDENT then
        (case vars p (Literal (curToken p)) of
           Some varStmt \<Rightarrow>
             (case parseReasignStatement n varStmt p of
                (Inl err, p1) \<Rightarrow> (Inl err, p1)
              | (Inr stmt, p1) \<Rightarrow> (Inr (ReassignVarStatementNode stmt), p1))
         | None \<Rightarrow>
             (case consumeOrFail LPAREN p of
                (Inl err, p1) \<Rightarrow> (Inl err, p1)
              | (Inr u, p1) \<Rightarrow>
                  (case parseFnCallExpression n (UnboundedIdentifier (Literal (curToken p)))
                          Void (nextToken p1) of
                     (Inl err, p2) \<Rightarrow> (Inl err, p2)
                   | (Inr expr, p2) \<Rightarrow>
                       (let p3 = nextToken p2
                        in if \<not> endOfStatement (Type (curToken p3)) then
                             (Inl (ErrParser (Line (curToken p3))
                                     (Column (curToken p3)
                                        + int (length (Literal (curToken p3))))
                                     (ErrExpectedEndOfStatement (Literal (curToken p3)))), p3)
                           else (Inr (ExpressionNode expr), p3)))))
      else
        (Inl (ErrParser (Line (curToken p)) (Column (curToken p))
                (ErrUnexpectedToken (Literal (curToken p)))), p))"
| "parseFnStatement 0 p = (Inl OutOfFuel, p)"
| "parseFnStatement (Suc n) p =
     (case parseFnHeader p of
        (Inl err, p1) \<Rightarrow> (Inl err, p1)
      | (Inr (name, args), p1) \<Rightarrow>
          (case reconcile name args p1 of
             Some err \<Rightarrow> (Inl err, p1)
           | None \<Rightarrow>
               (case parseFnReturnType p1 of
                  (Inl err, p2) \<Rightarrow> (Inl err, p2)
                | (Inr (mustHaveReturn, returnType), p2) \<Rightarrow>
                    (case consumeOrFail LBRACE p2 of
                       (Inl err, p3) \<Rightarrow> (Inl err, p3)
                     | (Inr u, p3) \<Rightarrow>
                         (case parseFnBody n returnType [] (nextToken p3) of
                            (Inl err, p4) \<Rightarrow> (Inl err, p4)
                          | (Inr body, p4) \<Rightarrow>
                              (case checkReturn mustHaveReturn returnType body p4 of
                                 Some err \<Rightarrow> (Inl err, p4)
                               | None \<Rightarrow>
                                   (let stmt = FnStatement name args body returnType False []
                                    in (Inr stmt,
                                        p4\<lparr>fns := (fns p4)(name \<mapsto> stmt)\<rparr>))))))))"
| "parseFnBody 0 returnType body p = (Inl OutOfFuel, p)"
| "parseFnBody (Suc n) returnType body p =
     (if Type (curToken p) = RBRACE then (Inr body, p)
      else if Type (curToken p) = NEXTLINE then parseFnBody n returnType body (nextToken p)
      else
        (case parseStatement n returnType p of
           (Inl err, p1) \<Rightarrow> (Inl err, p1)
         | (Inr innerStmt, p1) \<Rightarrow>
             parseFnBody n returnType (body @ [innerStmt]) (nextToken p1)))"

text \<open>\<^verbatim>\<open>ParseProgram\<close>: its loop over the top-level statements, then the method itself.\<close>

fun ParseProgram_loop :: "nat \<Rightarrow> Node list \<Rightarrow> Parser \<Rightarrow> (error + Node list) \<times> Parser" where
  "ParseProgram_loop 0 stmts p = (Inl OutOfFuel, p)"
| "ParseProgram_loop (Suc n) stmts p =
     (if Type (curToken p) = EOF then (Inr stmts, p)
      else if Type (curToken p) = NEXTLINE then ParseProgram_loop n stmts (nextToken p)
      else
        (case parseStatement n Void p of
           (Inl err, p1) \<Rightarrow> (Inl err, p1)
         | (Inr stmt, p1) \<Rightarrow> ParseProgram_loop n (stmts @ [stmt]) (nextToken p1)))"

definition ParseProgram :: "nat \<Rightarrow> Parser \<Rightarrow> (error + Program) \<times> Parser" where
  "ParseProgram n p =
     (case ParseProgram_loop n [] p of
        (Inl err, p1) \<Rightarrow> (Inl err, p1)
      | (Inr stmts, p1) \<Rightarrow> (Inr (Program stmts), p1))"

text \<open>
  The whole front end on a source text: scan, \<^verbatim>\<open>NewParser\<close>, \<^verbatim>\<open>ParseProgram\<close>; the result
  or error alone.
\<close>

definition parseSource :: "nat \<Rightarrow> string \<Rightarrow> error + Program" where
  "parseSource n src = fst (ParseProgram n (NewParser (NextToken (NewLexer src))))"

text \<open>A run of a parsing function is finished when the bound was not what ended it.\<close>

definition finished :: "(error + 'a) \<times> Parser \<Rightarrow> bool" where
  "finished r = (fst r \<noteq> Inl OutOfFuel)"


section \<open>Lowering of expressions (package llvm)\<close>

text \<open>
  The value \<^verbatim>\<open>generateExpression\<close> returns, as the call of the LLVM binding that built it.
  \<^verbatim>\<open>llvm.ConstInt(gen.context.Int32Type(), uint64(expr.Value), false)\<close> is the constant of
  the 32-bit integer type: LLVM keeps the low 32 bits of the 64-bit argument, and
  \<^verbatim>\<open>uint64(expr.Value)\<close> is the same 64 bits read unsigned, so \<open>ConstInt32\<close> holds the
  truncation of the stored word. A load names the function and the variable whose
  storage \<^verbatim>\<open>gen.locals[fnName][expr.Value]\<close> it reads. The two \<^verbatim>\<open>panic\<close> calls of the
  source are the two errors.
\<close>

datatype LLVMValue =
    ConstInt32 "32 word"
  | ConstString string
  | ConstFloat string
  | CreateLoad string string
  | CreateAdd LLVMValue LLVMValue
  | CreateSub LLVMValue LLVMValue
  | CreateMul LLVMValue LLVMValue
  | CreateSDiv LLVMValue LLVMValue

datatype gen_error = PanicUnknownOperator string | PanicUnknownExpressionType

fun generateExpression :: "Expression \<Rightarrow> string \<Rightarrow> gen_error + LLVMValue" where
  "generateExpression (IntegerLiteral v) fnName = Inr (ConstInt32 (ucast v))"
| "generateExpression (StringLiteral v) fnName = Inr (ConstString v)"
| "generateExpression (FloatLiteral v) fnName = Inr (ConstFloat v)"
| "generateExpression (Identifier v t) fnName = Inr (CreateLoad fnName v)"
| "generateExpression (InfixExpression l operator r) fnName =
     (case generateExpression l fnName of
        Inl err \<Rightarrow> Inl err
      | Inr left \<Rightarrow>
          (case generateExpression r fnName of
             Inl err \<Rightarrow> Inl err
           | Inr right \<Rightarrow>
               if operator = ''+'' then Inr (CreateAdd left right)
               else if operator = ''-'' then Inr (CreateSub left right)
               else if operator = ''*'' then Inr (CreateMul left right)
               else if operator = ''/'' then Inr (CreateSDiv left right)
               else Inl (PanicUnknownOperator operator)))"
| "generateExpression _ fnName = Inl PanicUnknownExpressionType"

section \<open>Reading the source file (package source, and main)\<close>

text \<open>
  \<^verbatim>\<open>filepath.Ext\<close>: the suffix from the last dot of the last path element, empty without
  one. \<open>Ext_scan\<close> walks the path from its end, as the library's loop does; its second
  argument is the part already passed.
\<close>

fun Ext_scan :: "string \<Rightarrow> string \<Rightarrow> string" where
  "Ext_scan [] suffix = []"
| "Ext_scan (c # cs) suffix =
     (if c = CHR ''/'' then []
      else if c = CHR ''.'' then c # suffix
      else Ext_scan cs (c # suffix))"

definition Ext :: "string \<Rightarrow> string" where
  "Ext path = Ext_scan (rev path) []"

text \<open>\<^verbatim>\<open>allowedExtensions\<close>: a missing key reads as \<^verbatim>\<open>false\<close>.\<close>

definition allowedExtensions :: "string \<Rightarrow> bool" where
  "allowedExtensions ext = (ext = ''.lt'')"

text \<open>
  The file system is a map from paths to contents, and what a run does to it is a list
  of events in the order they happen.
\<close>

datatype event =
    EvReadFile string
  | EvCreateFile string
  | EvWriteFile string string
  | EvPrint string
  | EvPanic

datatype source_error = ErrExtensionNotAllowed string | ErrReadFile

record SourceFile =
  sf_source :: string
  sf_cursorAt :: nat
  sf_path :: string

definition FromFile ::
  "(string \<rightharpoonup> string) \<Rightarrow> string \<Rightarrow> (source_error + SourceFile) \<times> event list" where
  "FromFile fs sourcePath =
     (if \<not> allowedExtensions (Ext sourcePath)
      then (Inl (ErrExtensionNotAllowed (Ext sourcePath)), [])
      else (case fs sourcePath of
              None \<Rightarrow> (Inl ErrReadFile, [EvReadFile sourcePath])
            | Some contents \<Rightarrow>
                (Inr \<lparr>sf_source = contents, sf_cursorAt = 0, sf_path = sourcePath\<rparr>,
                 [EvReadFile sourcePath])))"

text \<open>
  \<^verbatim>\<open>main\<close>. Its arguments here: the bound for the parser, the lowering, \<^verbatim>\<open>os.Args\<close> and the
  file system. The lowering (\<^verbatim>\<open>GenerateIR\<close>, \<^verbatim>\<open>VerifyModule\<close> and \<^verbatim>\<open>Module.String\<close>) runs in
  the LLVM library and is a parameter: it gives the text of the module, or fails the
  verification, or panics. Creating and writing \<^verbatim>\<open>output.ll\<close> are taken to succeed. A panic
  of the parser ends the run; where the bound of the model ends the parse, the list stops
  at the read.
\<close>

datatype lowered = Lowered string | VerifyFailed | LoweringPanic

definition main ::
  "nat \<Rightarrow> (Program \<Rightarrow> lowered) \<Rightarrow> string list \<Rightarrow> (string \<rightharpoonup> string) \<Rightarrow> event list" where
  "main n lowering args fs =
     (if length args < 2 then [EvPrint ''Usage: main <source file>'']
      else
        (case fs (args ! 1) of
           None \<Rightarrow> [EvReadFile (args ! 1), EvPrint ''Error reading source file'']
         | Some source \<Rightarrow>
             (case parseSource n source of
                Inl (ErrParser l c m) \<Rightarrow>
                  [EvReadFile (args ! 1), EvPrint ''Error parsing program'']
              | Inl OutOfFuel \<Rightarrow> [EvReadFile (args ! 1)]
              | Inl err \<Rightarrow> [EvReadFile (args ! 1), EvPanic]
              | Inr program \<Rightarrow>
                  (case lowering program of
                     Lowered ir \<Rightarrow>
                       [EvReadFile (args ! 1), EvCreateFile ''output.ll'',
                        EvWriteFile ''output.ll'' ir]
                   | VerifyFailed \<Rightarrow>
                       [EvReadFile (args ! 1), EvPrint ''Error verifying module'']
                   | LoweringPanic \<Rightarrow> [EvReadFile (args ! 1), EvPanic]))))"

section \<open>Token sequences written out\<close>

text \<open>
  Sources with a type annotation or a string literal are given as the tokens they
  consist of, all on line 1 (\<open>tok\<close> takes the kind, the text and the column), with the
  end-of-input token of the scanner last.
\<close>

definition tok :: "TokenType \<Rightarrow> string \<Rightarrow> int \<Rightarrow> Token" where
  "tok t lit col = \<lparr>Type = t, Literal = lit, Line = 1, Column = col\<rparr>"

definition eof :: Token where
  "eof = \<lparr>Type = EOF, Literal = [], Line = 0, Column = 0\<rparr>"

text \<open>\<^verbatim>\<open>var x: int32 = ;\<close>\<close>

definition var_nil_tokens :: "Token list" where
  "var_nil_tokens =
     [tok VAR ''var'' 0, tok IDENT ''x'' 4, tok COLON '':'' 5, tok RAWTYPE ''int32'' 7,
      tok ASSIGN ''='' 13, tok SEMICOLON '';'' 15,
      eof]"


text \<open>\<^verbatim>\<open>var x: int32 = + 1;\<close>\<close>

definition var_plus_tokens :: "Token list" where
  "var_plus_tokens =
     [tok VAR ''var'' 0, tok IDENT ''x'' 4, tok COLON '':'' 5, tok RAWTYPE ''int32'' 7,
      tok ASSIGN ''='' 13, tok PLUS ''+'' 15, tok INT_tok ''1'' 17, tok SEMICOLON '';'' 18,
      eof]"

text \<open>\<^verbatim>\<open>greet("a"); fn greet(n: int32) {}\<close>\<close>

definition greet_int32_tokens :: "Token list" where
  "greet_int32_tokens =
     [tok IDENT ''greet'' 0, tok LPAREN ''('' 5, tok STRING ''a'' 6, tok RPAREN '')'' 9,
      tok SEMICOLON '';'' 10,
      tok FN ''fn'' 12, tok IDENT ''greet'' 15, tok LPAREN ''('' 20, tok IDENT ''n'' 21,
      tok COLON '':'' 22, tok RAWTYPE ''int32'' 24, tok RPAREN '')'' 29,
      tok LBRACE ''{'' 31, tok RBRACE ''}'' 32, eof]"

text \<open>\<^verbatim>\<open>greet("a"); fn greet(n: string) {}\<close>\<close>

definition greet_string_tokens :: "Token list" where
  "greet_string_tokens =
     [tok IDENT ''greet'' 0, tok LPAREN ''('' 5, tok STRING ''a'' 6, tok RPAREN '')'' 9,
      tok SEMICOLON '';'' 10,
      tok FN ''fn'' 12, tok IDENT ''greet'' 15, tok LPAREN ''('' 20, tok IDENT ''n'' 21,
      tok COLON '':'' 22, tok RAWTYPE ''string'' 24, tok RPAREN '')'' 30,
      tok LBRACE ''{'' 32, tok RBRACE ''}'' 33, eof]"





text \<open>\<^verbatim>\<open>fn one(): int32 { return ;; }\<close>\<close>

definition one_nil_tokens :: "Token list" where
  "one_nil_tokens =
     [tok FN ''fn'' 0, tok IDENT ''one'' 3, tok LPAREN ''('' 6, tok RPAREN '')'' 7,
      tok COLON '':'' 8, tok RAWTYPE ''int32'' 10, tok LBRACE ''{'' 16,
      tok RETURN ''return'' 18, tok SEMICOLON '';'' 25, tok SEMICOLON '';'' 26,
      tok RBRACE ''}'' 28, eof]"

text \<open>\<^verbatim>\<open>fn add(a: int32, b: int32): int32 { return a + b; }\<close>\<close>

definition add_return_tokens :: "Token list" where
  "add_return_tokens =
     [tok FN ''fn'' 0, tok IDENT ''add'' 3, tok LPAREN ''('' 6,
      tok IDENT ''a'' 7, tok COLON '':'' 8, tok RAWTYPE ''int32'' 10, tok COMMA '','' 15,
      tok IDENT ''b'' 17, tok COLON '':'' 18, tok RAWTYPE ''int32'' 20, tok RPAREN '')'' 25,
      tok COLON '':'' 26, tok RAWTYPE ''int32'' 28, tok LBRACE ''{'' 34,
      tok RETURN ''return'' 36, tok IDENT ''a'' 43, tok PLUS ''+'' 45, tok IDENT ''b'' 47,
      tok SEMICOLON '';'' 48, tok RBRACE ''}'' 50, eof]"

section \<open>The type verifier: properties\<close>

text \<open>
  C5. For every expression, \<open>Verify Void\<close> succeeds (the \<^verbatim>\<open>nil\<close> error) and
  \<open>Verify Float32\<close> fails with the one generic error \<^verbatim>\<open>ErrWrongTypeAssigment\<close>: the
  \<^verbatim>\<open>switch\<close> of \<^verbatim>\<open>Verify\<close> has no case for \<^verbatim>\<open>Float32\<close>, which falls to \<^verbatim>\<open>default\<close> without
  looking at the expression.
\<close>

theorem Verify_Void_Float32:
  "Verify Void e = None \<and> Verify Float32 e = Some ErrWrongTypeAssigment"
  by simp


text \<open>
  C4. The claim: \<open>Verify Int32\<close> accepts an infix expression exactly when its operator
  is one of \<^verbatim>\<open>+ - * /\<close> and both operands verify. The source tests the operator with
  \<^verbatim>\<open>strings.ContainsAny(inner.Operator, "+-*/")\<close>, which holds as soon as one of the four
  characters occurs in it, so the two-character operator \<^verbatim>\<open>+-\<close> between two integer
  literals is accepted, although the message of the rejecting branch reads
  "int32 allowed infix operators: + - * /" and \<^verbatim>\<open>verifyString\<close> compares its operator
  with \<^verbatim>\<open>!=\<close>.
\<close>

theorem verifyInt32_accepts_compound_operator:
  "Verify Int32 (InfixExpression (IntegerLiteral 1) ''+-'' (IntegerLiteral 2)) = None"
  by (simp add: ContainsAny_def)

text \<open>
  With one of the four one-character operators, which are all the parser builds, the
  rule of \<open>verifyInt32\<close> for infix expressions is the one the claim gives; and the two
  rejections it names hold.
\<close>

lemma verifyInt32_infix_single_operator:
  "operator \<in> {''+'', ''-'', ''*'', ''/''} \<Longrightarrow>
   (verifyInt32 (InfixExpression l operator r) = None)
     = (verifyInt32 l = None \<and> verifyInt32 r = None)"
  by (auto simp: ContainsAny_def split: option.splits)

lemma verifyInt32_infix_other_character:
  "\<not> ContainsAny operator ''+-*/'' \<Longrightarrow> verifyInt32 (InfixExpression l operator r) \<noteq> None"
  by (simp split: option.splits)

lemma verifyInt32_cases:
  "(verifyInt32 (IntegerLiteral v) = None)
   \<and> ((verifyInt32 (Identifier name t) = None) = (t = Int32))
   \<and> ((verifyInt32 (PrefixExpression operator r) = None)
        = (operator \<notin> {''~'', ''++'', ''--''} \<and> verifyInt32 r = None))
   \<and> verifyInt32 NilExpression \<noteq> None
   \<and> verifyInt32 (FnCall name params) \<noteq> None
   \<and> verifyInt32 (UnboundedIdentifier name) \<noteq> None
   \<and> verifyInt32 (StringLiteral name) \<noteq> None
   \<and> verifyInt32 (FloatLiteral name) \<noteq> None"
  by (auto split: option.splits)

lemma Verify_rejections:
  "Verify Int32 (PrefixExpression ''~'' x) = Some ErrInt32PrefixOperators
   \<and> Verify String (IntegerLiteral v) = Some ErrWrongTypeAssigment"
  by simp

section \<open>The bound on the depth of calls\<close>

text \<open>
  The bound is an artefact of the model, and the results do not depend on it: when a
  parsing function finishes under a bound, it gives the same result and the same parser
  state under every larger bound. The proof goes through all the functions that call
  each other at once, by induction on the bound; \<open>step_...\<close> is the step for one function.
\<close>

lemma finished_simps [simp]:
  "finished (Inr x, p)" "finished (Inl e, p) = (e \<noteq> OutOfFuel)"
  by (simp_all add: finished_def)

lemma replaceErr_fuel [simp]:
  "(replaceErr e (ErrParser l c m) = OutOfFuel) = (e = OutOfFuel)"
  by (cases e) (simp_all add: replaceErr_def)

lemmas expr_simps = parseExpression.simps parseExpression_loop.simps parseGroupedExpression.simps
  parseInfixExpression.simps parseFnCallExpression.simps fnCall_defined_loop.simps
  fnCall_undefined_loop.simps

lemma step_parseExpression:
  assumes L: "\<And>prec tt l p. finished (parseExpression_loop n prec tt l p)
            \<Longrightarrow> parseExpression_loop (Suc n) prec tt l p = parseExpression_loop n prec tt l p"
      and G: "\<And>tt p. finished (parseGroupedExpression n tt p)
            \<Longrightarrow> parseGroupedExpression (Suc n) tt p = parseGroupedExpression n tt p"
      and f: "finished (parseExpression (Suc n) prec tt p)"
  shows "parseExpression (Suc (Suc n)) prec tt p = parseExpression (Suc n) prec tt p"
  using f
  apply (simp only: parseExpression.simps(2))
  apply (auto simp: L G simp del: expr_simps split: if_splits option.splits prod.splits sum.splits)
  done


lemma step_parseExpression_loop:
  assumes L: "\<And>prec tt l p. finished (parseExpression_loop n prec tt l p)
            \<Longrightarrow> parseExpression_loop (Suc n) prec tt l p = parseExpression_loop n prec tt l p"
      and I: "\<And>l tt p. finished (parseInfixExpression n l tt p)
            \<Longrightarrow> parseInfixExpression (Suc n) l tt p = parseInfixExpression n l tt p"
      and C: "\<And>l tt p. finished (parseFnCallExpression n l tt p)
            \<Longrightarrow> parseFnCallExpression (Suc n) l tt p = parseFnCallExpression n l tt p"
      and f: "finished (parseExpression_loop (Suc n) prec tt l p)"
  shows "parseExpression_loop (Suc (Suc n)) prec tt l p = parseExpression_loop (Suc n) prec tt l p"
  using f
  apply (simp only: parseExpression_loop.simps(2) [of "Suc n" prec tt l p]
                    parseExpression_loop.simps(2) [of n prec tt l p])
  apply (auto simp: L I C simp del: expr_simps split: if_splits option.splits prod.splits sum.splits)
  done

lemma step_parseGroupedExpression:
  assumes E: "\<And>prec tt p. finished (parseExpression n prec tt p)
            \<Longrightarrow> parseExpression (Suc n) prec tt p = parseExpression n prec tt p"
      and f: "finished (parseGroupedExpression (Suc n) tt p)"
  shows "parseGroupedExpression (Suc (Suc n)) tt p = parseGroupedExpression (Suc n) tt p"
  using f
  apply (simp only: parseGroupedExpression.simps(2))
  apply (auto simp: E simp del: expr_simps split: if_splits option.splits prod.splits sum.splits)
  done

lemma step_parseInfixExpression:
  assumes E: "\<And>prec tt p. finished (parseExpression n prec tt p)
            \<Longrightarrow> parseExpression (Suc n) prec tt p = parseExpression n prec tt p"
      and f: "finished (parseInfixExpression (Suc n) l tt p)"
  shows "parseInfixExpression (Suc (Suc n)) l tt p = parseInfixExpression (Suc n) l tt p"
  using f
  apply (simp only: parseInfixExpression.simps(2))
  apply (auto simp: E simp del: expr_simps split: if_splits option.splits prod.splits sum.splits)
  done

lemma step_parseFnCallExpression:
  assumes D: "\<And>fnStmt fnName idx params p. finished (fnCall_defined_loop n fnStmt fnName idx params p)
            \<Longrightarrow> fnCall_defined_loop (Suc n) fnStmt fnName idx params p
                = fnCall_defined_loop n fnStmt fnName idx params p"
      and U: "\<And>fnStmt fnName params p. finished (fnCall_undefined_loop n fnStmt fnName params p)
            \<Longrightarrow> fnCall_undefined_loop (Suc n) fnStmt fnName params p
                = fnCall_undefined_loop n fnStmt fnName params p"
      and f: "finished (parseFnCallExpression (Suc n) l tt p)"
  shows "parseFnCallExpression (Suc (Suc n)) l tt p = parseFnCallExpression (Suc n) l tt p"
  using f
  apply (simp only: parseFnCallExpression.simps(2))
  apply (auto simp: D U Let_def simp del: expr_simps
              split: if_splits option.splits prod.splits sum.splits Expression.splits)
  done

lemma step_fnCall_defined_loop:
  assumes E: "\<And>prec tt p. finished (parseExpression n prec tt p)
            \<Longrightarrow> parseExpression (Suc n) prec tt p = parseExpression n prec tt p"
      and D: "\<And>fnStmt fnName idx params p. finished (fnCall_defined_loop n fnStmt fnName idx params p)
            \<Longrightarrow> fnCall_defined_loop (Suc n) fnStmt fnName idx params p
                = fnCall_defined_loop n fnStmt fnName idx params p"
      and f: "finished (fnCall_defined_loop (Suc n) fnStmt fnName idx params p)"
  shows "fnCall_defined_loop (Suc (Suc n)) fnStmt fnName idx params p
         = fnCall_defined_loop (Suc n) fnStmt fnName idx params p"
  using f
  apply (simp only: fnCall_defined_loop.simps(2) [of "Suc n" fnStmt fnName idx params p]
                    fnCall_defined_loop.simps(2) [of n fnStmt fnName idx params p])
  apply (auto simp: E D simp del: expr_simps split: if_splits option.splits prod.splits sum.splits)
  done

lemma step_fnCall_undefined_loop:
  assumes E: "\<And>prec tt p. finished (parseExpression n prec tt p)
            \<Longrightarrow> parseExpression (Suc n) prec tt p = parseExpression n prec tt p"
      and U: "\<And>fnStmt fnName params p. finished (fnCall_undefined_loop n fnStmt fnName params p)
            \<Longrightarrow> fnCall_undefined_loop (Suc n) fnStmt fnName params p
                = fnCall_undefined_loop n fnStmt fnName params p"
      and f: "finished (fnCall_undefined_loop (Suc n) fnStmt fnName params p)"
  shows "fnCall_undefined_loop (Suc (Suc n)) fnStmt fnName params p
         = fnCall_undefined_loop (Suc n) fnStmt fnName params p"
  using f
  apply (simp only: fnCall_undefined_loop.simps(2) [of "Suc n" fnStmt fnName params p]
                    fnCall_undefined_loop.simps(2) [of n fnStmt fnName params p])
  apply (auto simp: E U Let_def simp del: expr_simps split: if_splits option.splits prod.splits sum.splits)
  done



lemma expression_fuel_step:
  "(\<forall>prec tt p. finished (parseExpression n prec tt p)
        \<longrightarrow> parseExpression (Suc n) prec tt p = parseExpression n prec tt p)
   \<and> (\<forall>prec tt l p. finished (parseExpression_loop n prec tt l p)
        \<longrightarrow> parseExpression_loop (Suc n) prec tt l p = parseExpression_loop n prec tt l p)
   \<and> (\<forall>tt p. finished (parseGroupedExpression n tt p)
        \<longrightarrow> parseGroupedExpression (Suc n) tt p = parseGroupedExpression n tt p)
   \<and> (\<forall>l tt p. finished (parseInfixExpression n l tt p)
        \<longrightarrow> parseInfixExpression (Suc n) l tt p = parseInfixExpression n l tt p)
   \<and> (\<forall>l tt p. finished (parseFnCallExpression n l tt p)
        \<longrightarrow> parseFnCallExpression (Suc n) l tt p = parseFnCallExpression n l tt p)
   \<and> (\<forall>fnStmt fnName idx params p. finished (fnCall_defined_loop n fnStmt fnName idx params p)
        \<longrightarrow> fnCall_defined_loop (Suc n) fnStmt fnName idx params p
            = fnCall_defined_loop n fnStmt fnName idx params p)
   \<and> (\<forall>fnStmt fnName params p. finished (fnCall_undefined_loop n fnStmt fnName params p)
        \<longrightarrow> fnCall_undefined_loop (Suc n) fnStmt fnName params p
            = fnCall_undefined_loop n fnStmt fnName params p)"
proof (induction n)
  case 0
  show ?case by simp
next
  case (Suc n)
  note E = Suc.IH [THEN conjunct1, rule_format]
  note L = Suc.IH [THEN conjunct2, THEN conjunct1, rule_format]
  note G = Suc.IH [THEN conjunct2, THEN conjunct2, THEN conjunct1, rule_format]
  note I = Suc.IH [THEN conjunct2, THEN conjunct2, THEN conjunct2, THEN conjunct1, rule_format]
  note C = Suc.IH [THEN conjunct2, THEN conjunct2, THEN conjunct2, THEN conjunct2,
                   THEN conjunct1, rule_format]
  note D = Suc.IH [THEN conjunct2, THEN conjunct2, THEN conjunct2, THEN conjunct2,
                   THEN conjunct2, THEN conjunct1, rule_format]
  note U = Suc.IH [THEN conjunct2, THEN conjunct2, THEN conjunct2, THEN conjunct2,
                   THEN conjunct2, THEN conjunct2, rule_format]
  show ?case
  proof (intro conjI allI impI)
    fix prec tt p
    assume f: "finished (parseExpression (Suc n) prec tt p)"
    show "parseExpression (Suc (Suc n)) prec tt p = parseExpression (Suc n) prec tt p"
      by (rule step_parseExpression [OF L G f])
  next
    fix prec tt l p
    assume f: "finished (parseExpression_loop (Suc n) prec tt l p)"
    show "parseExpression_loop (Suc (Suc n)) prec tt l p
                 = parseExpression_loop (Suc n) prec tt l p"
      by (rule step_parseExpression_loop [OF L I C f])
  next
    fix tt p
    assume f: "finished (parseGroupedExpression (Suc n) tt p)"
    show "parseGroupedExpression (Suc (Suc n)) tt p = parseGroupedExpression (Suc n) tt p"
      by (rule step_parseGroupedExpression [OF E f])
  next
    fix l tt p
    assume f: "finished (parseInfixExpression (Suc n) l tt p)"
    show "parseInfixExpression (Suc (Suc n)) l tt p = parseInfixExpression (Suc n) l tt p"
      by (rule step_parseInfixExpression [OF E f])
  next
    fix l tt p
    assume f: "finished (parseFnCallExpression (Suc n) l tt p)"
    show "parseFnCallExpression (Suc (Suc n)) l tt p = parseFnCallExpression (Suc n) l tt p"
      by (rule step_parseFnCallExpression [OF D U f])
  next
    fix fnStmt fnName idx params p
    assume f: "finished (fnCall_defined_loop (Suc n) fnStmt fnName idx params p)"
    show "fnCall_defined_loop (Suc (Suc n)) fnStmt fnName idx params p
                 = fnCall_defined_loop (Suc n) fnStmt fnName idx params p"
      by (rule step_fnCall_defined_loop [OF E D f])
  next
    fix fnStmt fnName params p
    assume f: "finished (fnCall_undefined_loop (Suc n) fnStmt fnName params p)"
    show "fnCall_undefined_loop (Suc (Suc n)) fnStmt fnName params p
                 = fnCall_undefined_loop (Suc n) fnStmt fnName params p"
      by (rule step_fnCall_undefined_loop [OF E U f])
  qed
qed

lemma parseExpression_fuel_Suc:
  "finished (parseExpression n prec tt p)
   \<Longrightarrow> parseExpression (Suc n) prec tt p = parseExpression n prec tt p"
  by (rule expression_fuel_step [THEN conjunct1, rule_format])

lemma parseExpression_fuel_add:
  "finished (parseExpression n prec tt p)
   \<Longrightarrow> parseExpression (n + k) prec tt p = parseExpression n prec tt p"
  by (induction k) (simp_all add: parseExpression_fuel_Suc del: expr_simps)

lemma parseFnCallExpression_fuel_Suc:
  "finished (parseFnCallExpression n l tt p)
   \<Longrightarrow> parseFnCallExpression (Suc n) l tt p = parseFnCallExpression n l tt p"
  by (rule expression_fuel_step [THEN conjunct2, THEN conjunct2, THEN conjunct2, THEN conjunct2,
                                   THEN conjunct1, rule_format])

lemma parseVarStatement_fuel_Suc:
  "finished (parseVarStatement n p) \<Longrightarrow> parseVarStatement (Suc n) p = parseVarStatement n p"
  unfolding parseVarStatement_def
  by (auto simp: parseExpression_fuel_Suc simp del: expr_simps
           split: if_splits prod.splits sum.splits)

lemma parseReasignStatement_fuel_Suc:
  "finished (parseReasignStatement n old p)
   \<Longrightarrow> parseReasignStatement (Suc n) old p = parseReasignStatement n old p"
  unfolding parseReasignStatement_def
  by (auto simp: parseExpression_fuel_Suc simp del: expr_simps
           split: if_splits prod.splits sum.splits error.splits)

lemma parseReturnStatement_fuel_Suc:
  "finished (parseReturnStatement n tt p)
   \<Longrightarrow> parseReturnStatement (Suc n) tt p = parseReturnStatement n tt p"
  unfolding parseReturnStatement_def
  by (auto simp: parseExpression_fuel_Suc simp del: expr_simps
           split: if_splits prod.splits sum.splits)


lemmas stmt_simps = parseStatement.simps parseFnStatement.simps parseFnBody.simps

lemma step_parseStatement:
  assumes F: "\<And>p. finished (parseFnStatement n p)
            \<Longrightarrow> parseFnStatement (Suc n) p = parseFnStatement n p"
      and f: "finished (parseStatement (Suc n) tt p)"
  shows "parseStatement (Suc (Suc n)) tt p = parseStatement (Suc n) tt p"
  using f
  apply (simp only: parseStatement.simps(2))
  apply (auto simp: F parseVarStatement_fuel_Suc parseReasignStatement_fuel_Suc
                    parseReturnStatement_fuel_Suc parseFnCallExpression_fuel_Suc Let_def
              simp del: expr_simps stmt_simps
              split: if_splits option.splits prod.splits sum.splits)
  done

lemma step_parseFnStatement:
  assumes B: "\<And>rt body p. finished (parseFnBody n rt body p)
            \<Longrightarrow> parseFnBody (Suc n) rt body p = parseFnBody n rt body p"
      and f: "finished (parseFnStatement (Suc n) p)"
  shows "parseFnStatement (Suc (Suc n)) p = parseFnStatement (Suc n) p"
  using f
  apply (simp only: parseFnStatement.simps(2))
  apply (auto simp: B Let_def simp del: expr_simps stmt_simps
              split: if_splits option.splits prod.splits sum.splits)
  done

lemma step_parseFnBody:
  assumes S: "\<And>tt p. finished (parseStatement n tt p)
            \<Longrightarrow> parseStatement (Suc n) tt p = parseStatement n tt p"
      and B: "\<And>rt body p. finished (parseFnBody n rt body p)
            \<Longrightarrow> parseFnBody (Suc n) rt body p = parseFnBody n rt body p"
      and f: "finished (parseFnBody (Suc n) rt body p)"
  shows "parseFnBody (Suc (Suc n)) rt body p = parseFnBody (Suc n) rt body p"
  using f
  apply (simp only: parseFnBody.simps(2) [of "Suc n" rt body p] parseFnBody.simps(2) [of n rt body p])
  apply (auto simp: S B simp del: expr_simps stmt_simps
              split: if_splits option.splits prod.splits sum.splits)
  done

lemma statement_fuel_step:
  "(\<forall>tt p. finished (parseStatement n tt p)
        \<longrightarrow> parseStatement (Suc n) tt p = parseStatement n tt p)
   \<and> (\<forall>p. finished (parseFnStatement n p)
        \<longrightarrow> parseFnStatement (Suc n) p = parseFnStatement n p)
   \<and> (\<forall>rt body p. finished (parseFnBody n rt body p)
        \<longrightarrow> parseFnBody (Suc n) rt body p = parseFnBody n rt body p)"
proof (induction n)
  case 0
  show ?case by simp
next
  case (Suc n)
  note S = Suc.IH [THEN conjunct1, rule_format]
  note F = Suc.IH [THEN conjunct2, THEN conjunct1, rule_format]
  note B = Suc.IH [THEN conjunct2, THEN conjunct2, rule_format]
  show ?case
  proof (intro conjI allI impI)
    fix tt p
    assume f: "finished (parseStatement (Suc n) tt p)"
    show "parseStatement (Suc (Suc n)) tt p = parseStatement (Suc n) tt p"
      by (rule step_parseStatement [OF F f])
  next
    fix p
    assume f: "finished (parseFnStatement (Suc n) p)"
    show "parseFnStatement (Suc (Suc n)) p = parseFnStatement (Suc n) p"
      by (rule step_parseFnStatement [OF B f])
  next
    fix rt body p
    assume f: "finished (parseFnBody (Suc n) rt body p)"
    show "parseFnBody (Suc (Suc n)) rt body p = parseFnBody (Suc n) rt body p"
      by (rule step_parseFnBody [OF S B f])
  qed
qed

lemma ParseProgram_loop_fuel_Suc:
  "finished (ParseProgram_loop n stmts p)
   \<Longrightarrow> ParseProgram_loop (Suc n) stmts p = ParseProgram_loop n stmts p"
proof (induction n arbitrary: stmts p)
  case 0
  then show ?case by simp
next
  case (Suc n)
  note S = statement_fuel_step [of n, THEN conjunct1, rule_format]
  from Suc.prems show ?case
    apply (simp only: ParseProgram_loop.simps(2) [of "Suc n" stmts p]
                      ParseProgram_loop.simps(2) [of n stmts p])
    apply (auto simp: S Suc.IH simp del: expr_simps stmt_simps ParseProgram_loop.simps
                split: if_splits option.splits prod.splits sum.splits)
    done
qed

lemma ParseProgram_fuel_Suc:
  "finished (ParseProgram n p) \<Longrightarrow> ParseProgram (Suc n) p = ParseProgram n p"
  unfolding ParseProgram_def
  by (auto simp: ParseProgram_loop_fuel_Suc simp del: ParseProgram_loop.simps
           split: prod.splits sum.splits)

lemma ParseProgram_fuel_add:
  "finished (ParseProgram n p) \<Longrightarrow> ParseProgram (n + k) p = ParseProgram n p"
  by (induction k) (simp_all add: ParseProgram_fuel_Suc)

lemma parseSource_fuel_add:
  "parseSource n src \<noteq> Inl OutOfFuel \<Longrightarrow> parseSource (n + k) src = parseSource n src"
  using ParseProgram_fuel_add [of n "NewParser (NextToken (NewLexer src))" k]
  by (simp add: parseSource_def finished_def)


section \<open>The parser: properties\<close>

text \<open>
  The look-ups of the loop of \<^verbatim>\<open>parseExpression\<close>, and the loop on three integer literals
  with two operators between them, followed by a token that is neither an operator nor a
  left parenthesis (the end of a statement, say): an operator of the higher level after
  one of the lower level takes the middle operand, and in the other order, or at the same
  level, the first operator does.
\<close>

lemma precedences_cases:
  "precedences PLUS = Some SUM_prec" "precedences MINUS = Some SUM_prec"
  "precedences STAR = Some PRODUCT" "precedences SLASH = Some PRODUCT"
  "precedences LPAREN = Some CALL"
  "t \<notin> {PLUS, MINUS, STAR, SLASH, LPAREN} \<Longrightarrow> precedences t = None"
  by (auto simp: precedences_def)

lemma sum_then_product_8:
  assumes "curToken p = a" "peekToken p = o1" "tokens p = b # o2 # c # e # rest"
      and "Type a = INT_tok" "Type b = INT_tok" "Type c = INT_tok"
      and "Type o1 = PLUS \<or> Type o1 = MINUS" "Type o2 = STAR \<or> Type o2 = SLASH"
      and "Type e \<notin> {PLUS, MINUS, STAR, SLASH, LPAREN}"
  shows "fst (parseExpression 8 LOWEST Void p) =
     Inr (InfixExpression (IntegerLiteral (word_of_int (fst (ParseInt (Literal a)))))
            (Literal o1)
            (InfixExpression (IntegerLiteral (word_of_int (fst (ParseInt (Literal b)))))
               (Literal o2)
               (IntegerLiteral (word_of_int (fst (ParseInt (Literal c)))))))"
proof -
  have pe: "precedences (Type e) = None"
    using assms(9) by (rule precedences_cases)
  show ?thesis
    using assms(1-8) pe
    by (auto simp: eval_nat_numeral nextToken_def Let_def peekTokenIs_def peekPrecedence_def
          curPrecedence_def precedences_cases parseIntegerLiteral_def
          LOWEST_def SUM_prec_def PRODUCT_def)
qed

lemma product_then_sum_8:
  assumes "curToken p = a" "peekToken p = o1" "tokens p = b # o2 # c # e # rest"
      and "Type a = INT_tok" "Type b = INT_tok" "Type c = INT_tok"
      and "Type o1 = STAR \<or> Type o1 = SLASH" "Type o2 = PLUS \<or> Type o2 = MINUS"
      and "Type e \<notin> {PLUS, MINUS, STAR, SLASH, LPAREN}"
  shows "fst (parseExpression 8 LOWEST Void p) =
     Inr (InfixExpression 
            (InfixExpression (IntegerLiteral (word_of_int (fst (ParseInt (Literal a)))))
               (Literal o1)
               (IntegerLiteral (word_of_int (fst (ParseInt (Literal b))))))
            (Literal o2)
            (IntegerLiteral (word_of_int (fst (ParseInt (Literal c))))))"
proof -
  have pe: "precedences (Type e) = None"
    using assms(9) by (rule precedences_cases)
  show ?thesis
    using assms(1-8) pe
    by (auto simp: eval_nat_numeral nextToken_def Let_def peekTokenIs_def peekPrecedence_def
          curPrecedence_def precedences_cases parseIntegerLiteral_def
          LOWEST_def SUM_prec_def PRODUCT_def)
qed

lemma same_level_left_associative:
  assumes "curToken p = a" "peekToken p = o1" "tokens p = b # o2 # c # e # rest"
      and "Type a = INT_tok" "Type b = INT_tok" "Type c = INT_tok"
      and "(Type o1 = PLUS \<or> Type o1 = MINUS) \<and> (Type o2 = PLUS \<or> Type o2 = MINUS)
           \<or> (Type o1 = STAR \<or> Type o1 = SLASH) \<and> (Type o2 = STAR \<or> Type o2 = SLASH)"
      and "Type e \<notin> {PLUS, MINUS, STAR, SLASH, LPAREN}"
  shows "fst (parseExpression 8 LOWEST Void p) =
     Inr (InfixExpression
            (InfixExpression (IntegerLiteral (word_of_int (fst (ParseInt (Literal a)))))
               (Literal o1)
               (IntegerLiteral (word_of_int (fst (ParseInt (Literal b))))))
            (Literal o2)
            (IntegerLiteral (word_of_int (fst (ParseInt (Literal c))))))"
proof -
  have pe: "precedences (Type e) = None"
    using assms(8) by (rule precedences_cases)
  show ?thesis
    using assms(1-7) pe
    by (auto simp: eval_nat_numeral nextToken_def Let_def peekTokenIs_def peekPrecedence_def
          curPrecedence_def precedences_cases parseIntegerLiteral_def
          LOWEST_def SUM_prec_def PRODUCT_def)
qed

text \<open>
  C6. Scanning and parsing \<^verbatim>\<open>var x = 1 + 2 * 3;\<close> gives a program of one \<^verbatim>\<open>VarStatement\<close>
  whose value is the tree of \<^verbatim>\<open>1 + (2 * 3)\<close>, not that of \<^verbatim>\<open>(1 + 2) * 3\<close>; in the table of
  precedences \<^verbatim>\<open>+\<close> and \<^verbatim>\<open>-\<close> stand at a level strictly below that of \<^verbatim>\<open>*\<close> and \<^verbatim>\<open>/\<close>; and
  \<^verbatim>\<open>var x = 1 * 2 + 3;\<close> gives the tree of \<^verbatim>\<open>(1 * 2) + 3\<close>. In general, in the loop of
  \<^verbatim>\<open>parseExpression\<close>, in every parser state that stands at an integer literal \<open>a\<close> followed
  by an operator \<open>o1\<close>, an integer literal \<open>b\<close>, an operator \<open>o2\<close>, an integer literal \<open>c\<close>
  and a token that is neither an operator nor a left parenthesis: when \<open>o1\<close> is \<^verbatim>\<open>+\<close> or \<^verbatim>\<open>-\<close>
  and \<open>o2\<close> is \<^verbatim>\<open>*\<close> or \<^verbatim>\<open>/\<close> the result is \<open>a o1 (b o2 c)\<close>, and when \<open>o1\<close> is \<^verbatim>\<open>*\<close> or \<^verbatim>\<open>/\<close> and
  \<open>o2\<close> is \<^verbatim>\<open>+\<close> or \<^verbatim>\<open>-\<close> the result is \<open>(a o1 b) o2 c\<close>. The results are the same under every
  bound from 20 on for the texts, from 8 on for the expression.
\<close>

theorem precedence_of_product_over_sum:
  "parseSource (20 + k) ''var x = 1 + 2 * 3;'' =
     Inr (Program
       [VarStatementNode
          \<lparr>vs_Name = ''x'',
           vs_Value =
             InfixExpression (IntegerLiteral 1) ''+''
               (InfixExpression (IntegerLiteral 2) ''*'' (IntegerLiteral 3)),
           vs_Type = Void\<rparr>])
   \<and> parseSource (20 + k) ''var x = 1 + 2 * 3;'' \<noteq>
     Inr (Program
       [VarStatementNode
          \<lparr>vs_Name = ''x'',
           vs_Value =
             InfixExpression
               (InfixExpression (IntegerLiteral 1) ''+'' (IntegerLiteral 2))
               ''*'' (IntegerLiteral 3),
           vs_Type = Void\<rparr>])
   \<and> precedences PLUS = Some SUM_prec \<and> precedences MINUS = Some SUM_prec
   \<and> precedences STAR = Some PRODUCT \<and> precedences SLASH = Some PRODUCT
   \<and> SUM_prec < PRODUCT
   \<and> parseSource (20 + k) ''var x = 1 * 2 + 3;'' =
     Inr (Program
       [VarStatementNode
          \<lparr>vs_Name = ''x'',
           vs_Value =
             InfixExpression
               (InfixExpression (IntegerLiteral 1) ''*'' (IntegerLiteral 2))
               ''+'' (IntegerLiteral 3),
           vs_Type = Void\<rparr>])
   \<and> (curToken p = a \<and> peekToken p = o1 \<and> tokens p = b # o2 # c # e # rest
        \<and> Type a = INT_tok \<and> Type b = INT_tok \<and> Type c = INT_tok
        \<and> Type e \<notin> {PLUS, MINUS, STAR, SLASH, LPAREN} \<longrightarrow>
        ((Type o1 = PLUS \<or> Type o1 = MINUS) \<and> (Type o2 = STAR \<or> Type o2 = SLASH) \<longrightarrow>
           fst (parseExpression (8 + n) LOWEST Void p) =
             Inr (InfixExpression (IntegerLiteral (word_of_int (fst (ParseInt (Literal a)))))
                    (Literal o1)
                    (InfixExpression
                       (IntegerLiteral (word_of_int (fst (ParseInt (Literal b)))))
                       (Literal o2)
                       (IntegerLiteral (word_of_int (fst (ParseInt (Literal c))))))))
        \<and> ((Type o1 = STAR \<or> Type o1 = SLASH) \<and> (Type o2 = PLUS \<or> Type o2 = MINUS) \<longrightarrow>
           fst (parseExpression (8 + n) LOWEST Void p) =
             Inr (InfixExpression
                    (InfixExpression
                       (IntegerLiteral (word_of_int (fst (ParseInt (Literal a)))))
                       (Literal o1)
                       (IntegerLiteral (word_of_int (fst (ParseInt (Literal b))))))
                    (Literal o2)
                    (IntegerLiteral (word_of_int (fst (ParseInt (Literal c))))))))"
proof -
  have at20: "parseSource 20 ''var x = 1 + 2 * 3;'' =
     Inr (Program
       [VarStatementNode
          \<lparr>vs_Name = ''x'',
           vs_Value =
             InfixExpression (IntegerLiteral 1) ''+''
               (InfixExpression (IntegerLiteral 2) ''*'' (IntegerLiteral 3)),
           vs_Type = Void\<rparr>])"
    by code_simp
  then have c1: "parseSource (20 + k) ''var x = 1 + 2 * 3;'' = parseSource 20 ''var x = 1 + 2 * 3;''"
    by (intro parseSource_fuel_add) simp
  have bt20: "parseSource 20 ''var x = 1 * 2 + 3;'' =
     Inr (Program
       [VarStatementNode
          \<lparr>vs_Name = ''x'',
           vs_Value =
             InfixExpression
               (InfixExpression (IntegerLiteral 1) ''*'' (IntegerLiteral 2))
               ''+'' (IntegerLiteral 3),
           vs_Type = Void\<rparr>])"
    by code_simp
  then have c2: "parseSource (20 + k) ''var x = 1 * 2 + 3;'' = parseSource 20 ''var x = 1 * 2 + 3;''"
    by (intro parseSource_fuel_add) simp
  have tab: "precedences PLUS = Some SUM_prec \<and> precedences MINUS = Some SUM_prec
      \<and> precedences STAR = Some PRODUCT \<and> precedences SLASH = Some PRODUCT
      \<and> SUM_prec < PRODUCT"
    by code_simp
  have more: "parseExpression (8 + n) LOWEST Void p = parseExpression 8 LOWEST Void p"
    if "fst (parseExpression 8 LOWEST Void p) = Inr x" for x
    using that by (intro parseExpression_fuel_add) (simp add: finished_def)
  have gen: "curToken p = a \<and> peekToken p = o1 \<and> tokens p = b # o2 # c # e # rest
        \<and> Type a = INT_tok \<and> Type b = INT_tok \<and> Type c = INT_tok
        \<and> Type e \<notin> {PLUS, MINUS, STAR, SLASH, LPAREN} \<longrightarrow>
        ((Type o1 = PLUS \<or> Type o1 = MINUS) \<and> (Type o2 = STAR \<or> Type o2 = SLASH) \<longrightarrow>
           fst (parseExpression (8 + n) LOWEST Void p) =
             Inr (InfixExpression (IntegerLiteral (word_of_int (fst (ParseInt (Literal a)))))
                    (Literal o1)
                    (InfixExpression
                       (IntegerLiteral (word_of_int (fst (ParseInt (Literal b)))))
                       (Literal o2)
                       (IntegerLiteral (word_of_int (fst (ParseInt (Literal c))))))))
        \<and> ((Type o1 = STAR \<or> Type o1 = SLASH) \<and> (Type o2 = PLUS \<or> Type o2 = MINUS) \<longrightarrow>
           fst (parseExpression (8 + n) LOWEST Void p) =
             Inr (InfixExpression
                    (InfixExpression
                       (IntegerLiteral (word_of_int (fst (ParseInt (Literal a)))))
                       (Literal o1)
                       (IntegerLiteral (word_of_int (fst (ParseInt (Literal b))))))
                    (Literal o2)
                    (IntegerLiteral (word_of_int (fst (ParseInt (Literal c)))))))"
  proof (intro impI conjI)
    assume h: "curToken p = a \<and> peekToken p = o1 \<and> tokens p = b # o2 # c # e # rest
        \<and> Type a = INT_tok \<and> Type b = INT_tok \<and> Type c = INT_tok
        \<and> Type e \<notin> {PLUS, MINUS, STAR, SLASH, LPAREN}"
    {
      assume o: "(Type o1 = PLUS \<or> Type o1 = MINUS) \<and> (Type o2 = STAR \<or> Type o2 = SLASH)"
      have r: "fst (parseExpression 8 LOWEST Void p) =
             Inr (InfixExpression (IntegerLiteral (word_of_int (fst (ParseInt (Literal a)))))
                    (Literal o1)
                    (InfixExpression
                       (IntegerLiteral (word_of_int (fst (ParseInt (Literal b)))))
                       (Literal o2)
                       (IntegerLiteral (word_of_int (fst (ParseInt (Literal c)))))))"
        using h o by (intro sum_then_product_8 [where e = e and rest = rest]) blast+
      from more [OF r] r
      show "fst (parseExpression (8 + n) LOWEST Void p) =
             Inr (InfixExpression (IntegerLiteral (word_of_int (fst (ParseInt (Literal a)))))
                    (Literal o1)
                    (InfixExpression
                       (IntegerLiteral (word_of_int (fst (ParseInt (Literal b)))))
                       (Literal o2)
                       (IntegerLiteral (word_of_int (fst (ParseInt (Literal c)))))))"
        by (simp only:)
    }
    {
      assume o: "(Type o1 = STAR \<or> Type o1 = SLASH) \<and> (Type o2 = PLUS \<or> Type o2 = MINUS)"
      have r: "fst (parseExpression 8 LOWEST Void p) =
             Inr (InfixExpression
                    (InfixExpression
                       (IntegerLiteral (word_of_int (fst (ParseInt (Literal a)))))
                       (Literal o1)
                       (IntegerLiteral (word_of_int (fst (ParseInt (Literal b))))))
                    (Literal o2)
                    (IntegerLiteral (word_of_int (fst (ParseInt (Literal c))))))"
        using h o by (intro product_then_sum_8 [where e = e and rest = rest]) blast+
      from more [OF r] r
      show "fst (parseExpression (8 + n) LOWEST Void p) =
             Inr (InfixExpression
                    (InfixExpression
                       (IntegerLiteral (word_of_int (fst (ParseInt (Literal a)))))
                       (Literal o1)
                       (IntegerLiteral (word_of_int (fst (ParseInt (Literal b))))))
                    (Literal o2)
                    (IntegerLiteral (word_of_int (fst (ParseInt (Literal c))))))"
        by (simp only:)
    }
  qed
  have ne: "parseSource (20 + k) ''var x = 1 + 2 * 3;'' \<noteq>
     Inr (Program
       [VarStatementNode
          \<lparr>vs_Name = ''x'',
           vs_Value =
             InfixExpression
               (InfixExpression (IntegerLiteral 1) ''+'' (IntegerLiteral 2))
               ''*'' (IntegerLiteral 3),
           vs_Type = Void\<rparr>])"
    by (simp only: c1 at20) simp
  from c1 at20 ne tab c2 bt20 gen show ?thesis
    by (simp only: simp_thms)
qed

text \<open>
  On the scanned texts \<^verbatim>\<open>1 - 2 / 3;\<close> and \<^verbatim>\<open>1 * 2 + 3;\<close>.
\<close>

theorem precedence_of_product_over_sum_witness:
  "fst (parseExpression 8 LOWEST Void (NewParser (NextToken (NewLexer ''1 - 2 / 3;'')))) =
     Inr (InfixExpression (IntegerLiteral 1) ''-''
            (InfixExpression (IntegerLiteral 2) ''/'' (IntegerLiteral 3)))
   \<and> fst (parseExpression 8 LOWEST Void (NewParser (NextToken (NewLexer ''1 * 2 + 3;'')))) =
     Inr (InfixExpression
            (InfixExpression (IntegerLiteral 1) ''*'' (IntegerLiteral 2))
            ''+'' (IntegerLiteral 3))"
proof -
  define P where "P = NewParser (NextToken (NewLexer ''1 - 2 / 3;''))"
  define Q where "Q = NewParser (NextToken (NewLexer ''1 * 2 + 3;''))"
  have v: "word_of_int (fst (ParseInt ''1'')) = (1 :: 64 word)"
    "word_of_int (fst (ParseInt ''2'')) = (2 :: 64 word)"
    "word_of_int (fst (ParseInt ''3'')) = (3 :: 64 word)"
    by code_simp+
  have p1: "curToken P = \<lparr>Type = INT_tok, Literal = ''1'', Line = 1, Column = 0\<rparr>"
    unfolding P_def by code_simp
  have p2: "peekToken P = \<lparr>Type = MINUS, Literal = ''-'', Line = 1, Column = 2\<rparr>"
    unfolding P_def by code_simp
  have p3: "tokens P =
      \<lparr>Type = INT_tok, Literal = ''2'', Line = 1, Column = 4\<rparr>
      # \<lparr>Type = SLASH, Literal = ''/'', Line = 1, Column = 6\<rparr>
      # \<lparr>Type = INT_tok, Literal = ''3'', Line = 1, Column = 8\<rparr>
      # \<lparr>Type = SEMICOLON, Literal = '';'', Line = 1, Column = 9\<rparr>
      # [\<lparr>Type = EOF, Literal = [], Line = 0, Column = 0\<rparr>]"
    unfolding P_def by code_simp
  from precedence_of_product_over_sum
    [where p = P and n = 0 and k = 0
       and a = "\<lparr>Type = INT_tok, Literal = ''1'', Line = 1, Column = 0\<rparr>"
       and ?o1.0 = "\<lparr>Type = MINUS, Literal = ''-'', Line = 1, Column = 2\<rparr>"
       and b = "\<lparr>Type = INT_tok, Literal = ''2'', Line = 1, Column = 4\<rparr>"
       and ?o2.0 = "\<lparr>Type = SLASH, Literal = ''/'', Line = 1, Column = 6\<rparr>"
       and c = "\<lparr>Type = INT_tok, Literal = ''3'', Line = 1, Column = 8\<rparr>"
       and e = "\<lparr>Type = SEMICOLON, Literal = '';'', Line = 1, Column = 9\<rparr>"
       and rest = "[\<lparr>Type = EOF, Literal = [], Line = 0, Column = 0\<rparr>]"]
    p1 p2 p3
  have c1: "fst (parseExpression 8 LOWEST Void P) =
     Inr (InfixExpression (IntegerLiteral 1) ''-''
            (InfixExpression (IntegerLiteral 2) ''/'' (IntegerLiteral 3)))"
    by (simp add: v del: expr_simps)
  have q1: "curToken Q = \<lparr>Type = INT_tok, Literal = ''1'', Line = 1, Column = 0\<rparr>"
    unfolding Q_def by code_simp
  have q2: "peekToken Q = \<lparr>Type = STAR, Literal = ''*'', Line = 1, Column = 2\<rparr>"
    unfolding Q_def by code_simp
  have q3: "tokens Q =
      \<lparr>Type = INT_tok, Literal = ''2'', Line = 1, Column = 4\<rparr>
      # \<lparr>Type = PLUS, Literal = ''+'', Line = 1, Column = 6\<rparr>
      # \<lparr>Type = INT_tok, Literal = ''3'', Line = 1, Column = 8\<rparr>
      # \<lparr>Type = SEMICOLON, Literal = '';'', Line = 1, Column = 9\<rparr>
      # [\<lparr>Type = EOF, Literal = [], Line = 0, Column = 0\<rparr>]"
    unfolding Q_def by code_simp
  from precedence_of_product_over_sum
    [where p = Q and n = 0 and k = 0
       and a = "\<lparr>Type = INT_tok, Literal = ''1'', Line = 1, Column = 0\<rparr>"
       and ?o1.0 = "\<lparr>Type = STAR, Literal = ''*'', Line = 1, Column = 2\<rparr>"
       and b = "\<lparr>Type = INT_tok, Literal = ''2'', Line = 1, Column = 4\<rparr>"
       and ?o2.0 = "\<lparr>Type = PLUS, Literal = ''+'', Line = 1, Column = 6\<rparr>"
       and c = "\<lparr>Type = INT_tok, Literal = ''3'', Line = 1, Column = 8\<rparr>"
       and e = "\<lparr>Type = SEMICOLON, Literal = '';'', Line = 1, Column = 9\<rparr>"
       and rest = "[\<lparr>Type = EOF, Literal = [], Line = 0, Column = 0\<rparr>]"]
    q1 q2 q3
  have c2: "fst (parseExpression 8 LOWEST Void Q) =
     Inr (InfixExpression
            (InfixExpression (IntegerLiteral 1) ''*'' (IntegerLiteral 2))
            ''+'' (IntegerLiteral 3))"
    by (simp add: v del: expr_simps)
  from c1 c2 show ?thesis
    unfolding P_def Q_def by (simp only: simp_thms)
qed

text \<open>
  C7. The claim: an identifier in expression position that is not bound in the
  variable table becomes an \<^verbatim>\<open>UnboundedIdentifier\<close> with its name, without a crash. The
  source builds it from \<^verbatim>\<open>varStmt.Name\<close>, and \<^verbatim>\<open>varStmt\<close> is the \<^verbatim>\<open>nil\<close> pointer the failed
  lookup returned: on \<^verbatim>\<open>var x = y;\<close> the parser panics.
\<close>

theorem unbound_identifier_panics:
  "parseSource (20 + k) ''var x = y;'' = Inl PanicNilDereference"
proof -
  have at20: "parseSource 20 ''var x = y;'' = Inl PanicNilDereference"
    by code_simp
  then have "parseSource (20 + k) ''var x = y;'' = parseSource 20 ''var x = y;''"
    by (intro parseSource_fuel_add) simp
  with at20 show ?thesis by simp
qed

text \<open>The same for every parser state and every bound that lets the function run.\<close>

lemma parseExpression_unbound_identifier:
  "Type (curToken p) = IDENT \<Longrightarrow> vars p (Literal (curToken p)) = None \<Longrightarrow>
   parseExpression (Suc n) precedence tt p = (Inl PanicNilDereference, p)"
  by simp

text \<open>
  The parameters of a function are not entered in the variable table, so the input of
  the parser's own test of a function declaration,
  \<^verbatim>\<open>fn add(a: int32, b: int32): int32 { return a + b; }\<close>, ends in the same panic at the
  first parameter its body uses.
\<close>

lemma parameter_in_body_panics:
  "fst (ParseProgram (20 + k) (NewParser add_return_tokens)) = Inl PanicNilDereference"
proof -
  have at20: "fst (ParseProgram 20 (NewParser add_return_tokens)) = Inl PanicNilDereference"
    by code_simp
  then have "finished (ParseProgram 20 (NewParser add_return_tokens))"
    by (simp add: finished_def)
  from ParseProgram_fuel_add [OF this, of k] at20 show ?thesis by simp
qed

text \<open>
  C1. The claim: once a function has been parsed, a later declaration of the same name
  is rejected ("function already defined"), and the record stored after a declaration
  has \<^verbatim>\<open>Defined\<close> true. The source tests \<^verbatim>\<open>fnStmt.Defined\<close> but never assigns \<^verbatim>\<open>true\<close> to that
  field: both declarations of \<^verbatim>\<open>fn f() {} fn f() {}\<close> are accepted, and both records have
  \<^verbatim>\<open>Defined\<close> false.
\<close>

theorem redefinition_accepted:
  "parseSource (20 + k) ''fn f() {} fn f() {}'' =
     Inr (Program
       [FnStatementNode (FnStatement ''f'' [] [] Void False []),
        FnStatementNode (FnStatement ''f'' [] [] Void False [])])"
proof -
  have at20: "parseSource 20 ''fn f() {} fn f() {}'' =
     Inr (Program
       [FnStatementNode (FnStatement ''f'' [] [] Void False []),
        FnStatementNode (FnStatement ''f'' [] [] Void False [])])"
    by code_simp
  then have "parseSource (20 + k) ''fn f() {} fn f() {}'' = parseSource 20 ''fn f() {} fn f() {}''"
    by (intro parseSource_fuel_add) simp
  with at20 show ?thesis by simp
qed

text \<open>
  For every declaration the parser accepts, from any state and under any bound: the
  record it returns, which is the record it stores under the name, has \<^verbatim>\<open>Defined\<close> false.
\<close>

lemma parseFnStatement_never_Defined:
  "parseFnStatement n p = (Inr stmt, p') \<Longrightarrow> \<not> Defined stmt \<and> fns p' (Name stmt) = Some stmt"
  by (cases n) (auto simp: Let_def split: prod.splits sum.splits option.splits)

text \<open>
  C8. The claim: a path whose extension is not \<^verbatim>\<open>.lt\<close> is rejected at startup, before
  any read, and nothing is written. \<^verbatim>\<open>FromFile\<close> does reject such a path before reading,
  but \<^verbatim>\<open>main\<close> does not call it: it hands \<^verbatim>\<open>os.Args[1]\<close> to \<^verbatim>\<open>os.ReadFile\<close> as it is. So the
  first thing \<^verbatim>\<open>main\<close> does with any path is to read the file, and a well-formed program
  in \<^verbatim>\<open>prog.txt\<close> ends with \<^verbatim>\<open>output.ll\<close> written.
\<close>

theorem main_reads_any_extension:
  "(\<exists>rest. main n lowering [prog, path] fs = EvReadFile path # rest)
   \<and> \<not> allowedExtensions (Ext ''prog.txt'')
   \<and> FromFile [''prog.txt'' \<mapsto> ''fn main() {}''] ''prog.txt''
       = (Inl (ErrExtensionNotAllowed ''.txt''), [])
   \<and> main (20 + k) (\<lambda>program. Lowered ir) [''lotus'', ''prog.txt'']
        [''prog.txt'' \<mapsto> ''fn main() {}'']
       = [EvReadFile ''prog.txt'', EvCreateFile ''output.ll'', EvWriteFile ''output.ll'' ir]"
proof -
  have "\<exists>rest. main n lowering [prog, path] fs = EvReadFile path # rest"
    by (simp add: main_def split: option.splits sum.splits error.splits lowered.splits)
  moreover have "Ext ''prog.txt'' = ''.txt''"
    by (simp add: Ext_def)
  moreover have at20: "parseSource 20 ''fn main() {}''
      = Inr (Program [FnStatementNode (FnStatement ''main'' [] [] Void False [])])"
    by code_simp
  moreover from at20 have "parseSource (20 + k) ''fn main() {}'' = parseSource 20 ''fn main() {}''"
    by (intro parseSource_fuel_add) simp
  ultimately show ?thesis
    by (simp add: main_def FromFile_def allowedExtensions_def)
qed

text \<open>What \<^verbatim>\<open>FromFile\<close> does with every such path: the error, and no read.\<close>

lemma FromFile_rejects_before_reading:
  "Ext sourcePath \<noteq> ''.lt'' \<Longrightarrow>
   FromFile fs sourcePath = (Inl (ErrExtensionNotAllowed (Ext sourcePath)), [])"
  by (simp add: FromFile_def allowedExtensions_def)


section \<open>Integer literals: properties\<close>

lemma isDigit_range: "isDigit c \<Longrightarrow> 48 \<le> (of_char c :: int) \<and> (of_char c :: int) \<le> 57"
  by (auto simp: isDigit_def)

lemma decimal_from_mono:
  "0 \<le> n \<Longrightarrow> \<forall>c \<in> set cs. isDigit c \<Longrightarrow> n \<le> decimal_from n cs"
proof (induction cs arbitrary: n)
  case Nil
  then show ?case by (simp add: decimal_from_def)
next
  case (Cons c cs)
  have d: "48 \<le> (of_char c :: int)" using Cons.prems isDigit_range by simp
  have "n * 10 + (of_char c - 48) \<le> decimal_from (n * 10 + (of_char c - 48)) cs"
    using Cons.IH [of "n * 10 + (of_char c - 48)"] Cons.prems d by simp
  moreover have "n \<le> n * 10 + (of_char c - 48)" using Cons.prems d by simp
  ultimately show ?case by (simp add: decimal_from_def)
qed

lemma ParseUint_loop_digits:
  "0 \<le> n \<Longrightarrow> n \<le> maxUint64 \<Longrightarrow> \<forall>c \<in> set cs. isDigit c \<Longrightarrow>
   ParseUint_loop n cs =
     (if decimal_from n cs \<le> maxUint64 then (decimal_from n cs, None)
      else (maxUint64, Some ErrRange))"
proof (induction cs arbitrary: n)
  case Nil
  then show ?case by (simp add: decimal_from_def)
next
  case (Cons c cs)
  define d :: int where "d = of_char c - 48"
  have dr: "0 \<le> d \<and> d \<le> 9" using Cons.prems isDigit_range [of c] by (simp add: d_def)
  have rng: "48 \<le> (of_char c :: int) \<and> (of_char c :: int) \<le> 57"
    using Cons.prems isDigit_range [of c] by simp
  have unf: "decimal_from n (c # cs) = decimal_from (n * 10 + d) cs"
    by (simp add: decimal_from_def d_def)
  have digs: "\<forall>c \<in> set cs. isDigit c" using Cons.prems by simp
  have ge: "n * 10 + d \<le> decimal_from (n * 10 + d) cs"
    using decimal_from_mono [of "n * 10 + d" cs] digs dr Cons.prems by simp
  show ?case
  proof (cases "n \<ge> maxUint64 div 10 + 1")
    case True
    then have "n * 10 + d > maxUint64" using dr by (simp add: maxUint64_def)
    with ge have "\<not> decimal_from n (c # cs) \<le> maxUint64" by (simp add: unf)
    with True rng show ?thesis by simp
  next
    case small: False
    show ?thesis
    proof (cases "n * 10 + d \<le> maxUint64")
      case True
      then have m: "(n * 10 + d) mod 2 ^ 64 = n * 10 + d"
        using dr Cons.prems by (simp add: maxUint64_def)
      have "ParseUint_loop n (c # cs) = ParseUint_loop (n * 10 + d) cs"
        using small rng True m dr by (simp add: Let_def d_def [symmetric])
      also have "\<dots> = (if decimal_from (n * 10 + d) cs \<le> maxUint64
                        then (decimal_from (n * 10 + d) cs, None)
                        else (maxUint64, Some ErrRange))"
        using Cons.IH [of "n * 10 + d"] True dr Cons.prems digs by simp
      finally show ?thesis by (simp add: unf)
    next
      case False
      then have big: "n * 10 + d \<ge> 2 ^ 64" by (simp add: maxUint64_def)
      have "n * 10 + d < 2 * 2 ^ 64" using small dr by (simp add: maxUint64_def)
      then have "(n * 10 + d - 2 ^ 64) mod 2 ^ 64 = n * 10 + d - 2 ^ 64"
        using big by (intro mod_pos_pos_trivial) simp_all
      moreover have "(n * 10 + d - 2 ^ 64) mod 2 ^ 64 = (n * 10 + d) mod 2 ^ 64"
        by (rule minus_mod_self2)
      ultimately have m: "(n * 10 + d) mod 2 ^ 64 = n * 10 + d - 2 ^ 64"
        by simp
      have lt: "n * 10 + d - 2 ^ 64 < n * 10" using dr by simp
      from False ge have "\<not> decimal_from n (c # cs) \<le> maxUint64" by (simp add: unf)
      with small rng m lt show ?thesis by (simp add: Let_def d_def [symmetric])
    qed
  qed
qed


lemma ParseInt_digits:
  assumes "s \<noteq> []" and "\<forall>c \<in> set s. isDigit c"
  shows "ParseInt s = (if decimal s < 2 ^ 63 then (decimal s, None) else (2 ^ 63 - 1, Some ErrRange))"
proof -
  have "isDigit (hd s)" using assms by simp
  then have sign: "hd s \<noteq> CHR ''+'' \<and> hd s \<noteq> CHR ''-''" by (auto simp: isDigit_def)
  have u: "ParseUint s = (if decimal s \<le> maxUint64 then (decimal s, None) else (maxUint64, Some ErrRange))"
    using ParseUint_loop_digits [of 0 s] assms by (simp add: ParseUint_def decimal_def maxUint64_def)
  show ?thesis
    using assms(1) sign by (simp add: ParseInt_def u maxUint64_def)
qed

lemma decimal_nonneg: "\<forall>c \<in> set s. isDigit c \<Longrightarrow> 0 \<le> decimal s"
  using decimal_from_mono [of 0 s] by (simp add: decimal_def)


lemma sint_small: "0 \<le> y \<Longrightarrow> y < 2 ^ 63 \<Longrightarrow> sint (word_of_int y :: 64 word) = y"
  by (simp add: int_word_sint)


text \<open>
  C9. An integer literal never makes the parser fail: \<open>parseIntegerLiteral\<close> has no error
  result at all (the error of \<^verbatim>\<open>strconv.ParseInt\<close> is dropped); for a literal of decimal
  digits, as the scanner produces them, the stored \<^verbatim>\<open>int64\<close> is the number written,
  clamped to \<open>2 ^ 63 - 1\<close> when it is larger; \<open>parseExpression\<close> on such a token in front of
  a semicolon returns that node, with no type required or with \<^verbatim>\<open>Int32\<close> required; and the
  lowering emits the stored 64 bits as a 32-bit constant whose value is the stored one
  modulo \<open>2 ^ 32\<close>.
\<close>

theorem integer_literal_clamped_then_truncated:
  "(\<exists>v. parseIntegerLiteral p = IntegerLiteral v)
   \<and> (Literal (curToken p) \<noteq> [] \<and> (\<forall>c \<in> set (Literal (curToken p)). isDigit c) \<longrightarrow>
        (\<exists>v. parseIntegerLiteral p = IntegerLiteral v
              \<and> sint v = min (decimal (Literal (curToken p))) (2 ^ 63 - 1)))
   \<and> (Type (curToken p) = INT_tok \<and> peekTokenIs p SEMICOLON \<and> (tt = Void \<or> tt = Int32) \<longrightarrow>
        parseExpression (Suc (Suc n)) precedence tt p = (Inr (parseIntegerLiteral p), p))
   \<and> generateExpression (IntegerLiteral w) fnName = Inr (ConstInt32 (ucast w))
   \<and> uint (ucast w :: 32 word) = uint w mod 2 ^ 32"
proof -
  have total: "\<exists>v. parseIntegerLiteral p = IntegerLiteral v"
    by (simp add: parseIntegerLiteral_def)
  have clamp: "\<exists>v. parseIntegerLiteral p = IntegerLiteral v
                   \<and> sint v = min (decimal (Literal (curToken p))) (2 ^ 63 - 1)"
    if ne: "Literal (curToken p) \<noteq> []" and dg: "\<forall>c \<in> set (Literal (curToken p)). isDigit c"
  proof -
    have "fst (ParseInt (Literal (curToken p)))
            = min (decimal (Literal (curToken p))) (2 ^ 63 - 1)"
      using ParseInt_digits [OF ne dg] by (simp add: min_def)
    moreover have "0 \<le> min (decimal (Literal (curToken p))) (2 ^ 63 - 1)"
      using decimal_nonneg [OF dg] by simp
    moreover have "min (decimal (Literal (curToken p))) (2 ^ 63 - 1) < 2 ^ 63"
      by simp
    ultimately show ?thesis
      using sint_small [of "min (decimal (Literal (curToken p))) (2 ^ 63 - 1)"]
      by (simp add: parseIntegerLiteral_def)
  qed
  have accepted: "parseExpression (Suc (Suc n)) precedence tt p = (Inr (parseIntegerLiteral p), p)"
    if "Type (curToken p) = INT_tok" and "peekTokenIs p SEMICOLON" and "tt = Void \<or> tt = Int32"
    using that by (auto simp: parseIntegerLiteral_def)
  have trunc: "uint (ucast w :: 32 word) = uint w mod 2 ^ 32"
    by (simp add: unsigned_ucast_eq take_bit_eq_mod)
  from total clamp accepted trunc show ?thesis by simp
qed

theorem integer_literal_clamped_then_truncated_witness:
  "Type (curToken (NewParser (NextToken (NewLexer ''99999999999999999999;'')))) = INT_tok
   \<and> Literal (curToken (NewParser (NextToken (NewLexer ''99999999999999999999;''))))
     = ''99999999999999999999''
   \<and> list_all isDigit ''99999999999999999999''
   \<and> decimal ''99999999999999999999'' = 99999999999999999999
   \<and> (\<exists>v. parseIntegerLiteral (NewParser (NextToken (NewLexer ''99999999999999999999;'')))
            = IntegerLiteral v \<and> sint v = 2 ^ 63 - 1)
   \<and> fst (parseExpression 2 LOWEST Int32
             (NewParser (NextToken (NewLexer ''99999999999999999999;''))))
     = Inr (IntegerLiteral 9223372036854775807)
   \<and> generateExpression (IntegerLiteral 9223372036854775807) ''main''
     = Inr (ConstInt32 4294967295)
   \<and> uint (4294967295 :: 32 word) = uint (9223372036854775807 :: 64 word) mod 2 ^ 32"
proof -
  define P where "P = NewParser (NextToken (NewLexer ''99999999999999999999;''))"
  have lit: "Literal (curToken P) = ''99999999999999999999''"
    unfolding P_def by code_simp
  have ty: "Type (curToken P) = INT_tok"
    unfolding P_def by code_simp
  have pk: "peekTokenIs P SEMICOLON"
    unfolding P_def by code_simp
  have dg: "list_all isDigit ''99999999999999999999''"
    by code_simp
  have dec: "decimal ''99999999999999999999'' = 99999999999999999999"
    by code_simp
  have val: "parseIntegerLiteral P = IntegerLiteral 9223372036854775807"
    unfolding P_def by code_simp
  note inst = integer_literal_clamped_then_truncated
                [of P Int32 0 LOWEST "9223372036854775807" "''main''"]
  have hyp: "Literal (curToken P) \<noteq> [] \<and> (\<forall>c \<in> set (Literal (curToken P)). isDigit c)"
    using dg by (simp only: lit list_all_iff) simp
  have clamp: "\<exists>v. parseIntegerLiteral P = IntegerLiteral v
                   \<and> sint v = min (decimal (Literal (curToken P))) (2 ^ 63 - 1)"
    using inst hyp by blast
  have "min (decimal (Literal (curToken P))) (2 ^ 63 - 1) = (2 ^ 63 - 1 :: int)"
    by (simp only: lit dec) simp
  with clamp have c1: "\<exists>v. parseIntegerLiteral P = IntegerLiteral v \<and> sint v = 2 ^ 63 - 1"
    by simp
  have "parseExpression (Suc (Suc 0)) LOWEST Int32 P = (Inr (parseIntegerLiteral P), P)"
    using inst ty pk by blast
  then have c2: "fst (parseExpression 2 LOWEST Int32 P) = Inr (IntegerLiteral 9223372036854775807)"
    by (simp only: numeral_2_eq_2 val fst_conv)
  have c3: "generateExpression (IntegerLiteral 9223372036854775807) ''main''
              = Inr (ConstInt32 (ucast (9223372036854775807 :: 64 word)))"
    using inst by blast
  have c4: "ucast (9223372036854775807 :: 64 word) = (4294967295 :: 32 word)"
    by code_simp
  have c5: "uint (ucast (9223372036854775807 :: 64 word) :: 32 word)
              = uint (9223372036854775807 :: 64 word) mod 2 ^ 32"
    using inst by blast
  from ty lit dg dec c1 c2 c3 c4 c5 show ?thesis
    unfolding P_def by (simp only: simp_thms)
qed


section \<open>Declarations without an initializer expression\<close>

text \<open>
  C10, as the source has it. A token that cannot begin an expression (none of the
  three literals, no identifier, no left parenthesis) makes \<open>parseExpression\<close> return the
  \<^verbatim>\<open>nil\<close> expression with no error, before the loop and the call of \<^verbatim>\<open>Verify\<close>, whatever
  type is required. A \<^verbatim>\<open>var\<close> declaration with such a token in the initializer position,
  with or without a type annotation, is then accepted with a \<^verbatim>\<open>nil\<close> value exactly when
  the token after it ends a statement (semicolon, new line or end of input); when it
  does not, the declaration is rejected with "expected end of statement or new line".
\<close>

theorem nil_initializer:
  "(Type (curToken q) \<notin> {INT_tok, STRING, FLOAT, IDENT, LPAREN} \<longrightarrow>
      parseExpression (Suc n) precedence tt q = (Inr NilExpression, q))
   \<and> (consumeOrFail IDENT p = (Inr (), p1) \<and> parseVarType p1 = (Inr ty, p2)
        \<and> consumeOrFail ASSIGN p2 = (Inr (), p3)
        \<and> Type (curToken (nextToken p3)) \<notin> {INT_tok, STRING, FLOAT, IDENT, LPAREN} \<longrightarrow>
      parseVarStatement (Suc n) p =
        (if endOfStatement (Type (peekToken (nextToken p3))) then
           (Inr \<lparr>vs_Name = Literal (curToken p1), vs_Value = NilExpression, vs_Type = ty\<rparr>,
            nextToken ((nextToken p3)
              \<lparr>vars := (vars (nextToken p3))(Literal (curToken p1) \<mapsto>
                  \<lparr>vs_Name = Literal (curToken p1), vs_Value = NilExpression, vs_Type = ty\<rparr>)\<rparr>))
         else
           (Inl (ErrParser (Line (curToken (nextToken p3)))
                   (Column (curToken (nextToken p3))
                      + int (length (Literal (curToken (nextToken p3)))))
                   (ErrExpectedEndOfStatement (Literal (curToken (nextToken p3))))),
            nextToken p3)))"
proof -
  have nil: "parseExpression (Suc n) precedence tt q = (Inr NilExpression, q)"
    if "Type (curToken q) \<notin> {INT_tok, STRING, FLOAT, IDENT, LPAREN}" for q precedence tt
    using that by simp
  show ?thesis
    using nil [of "nextToken p3" LOWEST ty]
    by (simp add: parseVarStatement_def Let_def)
qed


text \<open>
  The claim as it was stated, that every such declaration is accepted without a
  diagnostic, fails on \<^verbatim>\<open>var x: int32 = + 1;\<close> and on \<^verbatim>\<open>var x = + 1;\<close>: the plus sign cannot
  begin an expression and the declaration is rejected.
\<close>

theorem nil_initializer_counterexample:
  "Type (tok PLUS ''+'' 15) \<notin> {INT_tok, STRING, FLOAT, IDENT, LPAREN}
   \<and> fst (ParseProgram 20 (NewParser var_plus_tokens))
     = Inl (ErrParser 1 16 (ErrExpectedEndOfStatement ''+''))
   \<and> parseSource 20 ''var x = + 1;'' = Inl (ErrParser 1 9 (ErrExpectedEndOfStatement ''+''))"
  by code_simp



text \<open>The accepted case, on \<^verbatim>\<open>var x: int32 = ;\<close>.\<close>

theorem nil_initializer_witness:
  "consumeOrFail IDENT (NewParser var_nil_tokens) = (Inr (), nextToken (NewParser var_nil_tokens))
   \<and> parseVarType (nextToken (NewParser var_nil_tokens))
       = (Inr Int32, nextToken (nextToken (nextToken (NewParser var_nil_tokens))))
   \<and> consumeOrFail ASSIGN (nextToken (nextToken (nextToken (NewParser var_nil_tokens))))
       = (Inr (), nextToken (nextToken (nextToken (nextToken (NewParser var_nil_tokens)))))
   \<and> Type (curToken (nextToken (nextToken (nextToken (nextToken (nextToken
         (NewParser var_nil_tokens))))))) = SEMICOLON
   \<and> endOfStatement (Type (peekToken (nextToken (nextToken (nextToken (nextToken (nextToken
         (NewParser var_nil_tokens))))))))
   \<and> fst (parseExpression 1 LOWEST Int32 (nextToken (nextToken (nextToken (nextToken (nextToken
         (NewParser var_nil_tokens))))))) = Inr NilExpression
   \<and> fst (parseVarStatement 1 (NewParser var_nil_tokens))
       = Inr \<lparr>vs_Name = ''x'', vs_Value = NilExpression, vs_Type = Int32\<rparr>"
proof -
  define P where "P = NewParser var_nil_tokens"
  define P1 where "P1 = nextToken P"
  define P2 where "P2 = nextToken (nextToken P1)"
  define P3 where "P3 = nextToken P2"
  define Q where "Q = nextToken P3"
  have t1: "Type (curToken P1) = IDENT" and n1: "Literal (curToken P1) = ''x''"
    unfolding P1_def P_def by code_simp+
  have k1: "Type (peekToken P1) = COLON"
    unfolding P1_def P_def by code_simp
  have t2: "Type (curToken P2) = RAWTYPE" and l2: "Literal (curToken P2) = ''int32''"
    unfolding P2_def P1_def P_def by code_simp+
  have t3: "Type (curToken P3) = ASSIGN"
    unfolding P3_def P2_def P1_def P_def by code_simp
  have tq: "Type (curToken Q) = SEMICOLON" and kq: "Type (peekToken Q) = EOF"
    unfolding Q_def P3_def P2_def P1_def P_def by code_simp+
  have h1: "consumeOrFail IDENT P = (Inr (), P1)"
    by (simp add: consumeOrFail_def Let_def P1_def [symmetric] t1)
  have h2: "parseVarType P1 = (Inr Int32, P2)"
    by (simp add: parseVarType_def consumeOrFail_def Let_def k1 P2_def [symmetric] t2 l2
                  getTypeFromLiteral_def)
  have h3: "consumeOrFail ASSIGN P2 = (Inr (), P3)"
    by (simp add: consumeOrFail_def Let_def P3_def [symmetric] t3)
  have h4: "Type (curToken (nextToken P3)) \<notin> {INT_tok, STRING, FLOAT, IDENT, LPAREN}"
    using tq by (simp add: Q_def)
  have e: "endOfStatement (Type (peekToken Q))"
    by (simp add: kq endOfStatement_def)
  note inst = nil_initializer [of Q 0 LOWEST Int32 P P1 Int32 P2 P3]
  have c1: "parseExpression (Suc 0) LOWEST Int32 Q = (Inr NilExpression, Q)"
    using inst h4 unfolding Q_def by blast
  have c2: "fst (parseVarStatement (Suc 0) P)
              = Inr \<lparr>vs_Name = ''x'', vs_Value = NilExpression, vs_Type = Int32\<rparr>"
    using inst h1 h2 h3 h4 e unfolding Q_def by (simp add: n1)
  from h1 h2 h3 tq e c1 c2 show ?thesis
    unfolding Q_def P3_def P2_def P1_def P_def by simp
qed



section \<open>Function declarations: properties\<close>

text \<open>
  The header of a declaration reads tokens only: the function table is the same after
  it, and it succeeds only when no record marked \<^verbatim>\<open>Defined\<close> has the name.
\<close>

lemma fns_nextToken [simp]: "fns (nextToken p) = fns p"
  by (simp add: nextToken_def Let_def split: list.splits)

lemma fns_consumeOrFail: "consumeOrFail t p = (r, p1) \<Longrightarrow> fns p1 = fns p"
  by (auto simp: consumeOrFail_def Let_def split: if_splits)

lemma fns_parseFnArgs: "parseFnArgs args p = (r, p') \<Longrightarrow> fns p' = fns p"
proof (induction args p arbitrary: r p' rule: parseFnArgs.induct)
  case (1 args p)
  note res = "1.prems"
  show ?case
  proof (cases "peekTokenIs p RPAREN")
    case True
    with res show ?thesis by (subst (asm) parseFnArgs.simps) auto
  next
    case nr: False
    obtain r1 p1 where c1: "consumeOrFail IDENT p = (r1, p1)" by fastforce
    have f1: "fns p1 = fns p" using c1 by (rule fns_consumeOrFail)
    show ?thesis
    proof (cases r1)
      case (Inl e)
      with res nr c1 f1 show ?thesis by (subst (asm) parseFnArgs.simps) auto
    next
      case i1: (Inr u1)
      obtain r2 p2 where c2: "consumeOrFail COLON p1 = (r2, p2)" by fastforce
      have f2: "fns p2 = fns p" using c2 f1 fns_consumeOrFail by metis
      show ?thesis
      proof (cases r2)
        case (Inl e)
        with res nr c1 i1 c2 f2 show ?thesis by (subst (asm) parseFnArgs.simps) auto
      next
        case i2: (Inr u2)
        obtain r3 p3 where c3: "consumeOrFail RAWTYPE p2 = (r3, p3)" by fastforce
        have f3: "fns p3 = fns p" using c3 f2 fns_consumeOrFail by metis
        show ?thesis
        proof (cases r3)
          case (Inl e)
          with res nr c1 i1 c2 i2 c3 f3 show ?thesis by (subst (asm) parseFnArgs.simps) auto
        next
          case i3: (Inr u3)
          show ?thesis
          proof (cases "getTypeFromLiteral (Literal (curToken p3))")
            case (Inl e)
            with res nr c1 i1 c2 i2 c3 i3 f3 show ?thesis
              by (subst (asm) parseFnArgs.simps) auto
          next
            case ty: (Inr ty)
            show ?thesis
            proof (cases "Type (peekToken p3) = RPAREN")
              case True
              with res nr c1 i1 c2 i2 c3 i3 ty f3 show ?thesis
                by (subst (asm) parseFnArgs.simps) auto
            next
              case nr3: False
              obtain r4 p4 where c4: "consumeOrFail COMMA p3 = (r4, p4)" by fastforce
              have f4: "fns p4 = fns p" using c4 f3 fns_consumeOrFail by metis
              show ?thesis
              proof (cases r4)
                case (Inl e)
                with res nr c1 i1 c2 i2 c3 i3 ty nr3 c4 f4 show ?thesis
                  by (subst (asm) parseFnArgs.simps) auto
              next
                case i4: (Inr u4)
                have "parseFnArgs args p
                        = parseFnArgs (args @ [\<lparr>arg_Name = Literal (curToken p1), arg_Type = ty\<rparr>]) p4"
                  using nr c1 i1 c2 i2 c3 i3 ty nr3 c4 i4
                  by (subst parseFnArgs.simps) simp
                with res have "parseFnArgs (args @ [\<lparr>arg_Name = Literal (curToken p1), arg_Type = ty\<rparr>]) p4 = (r, p')"
                  by simp
                then have "fns p' = fns p4"
                  by (rule "1.IH" [OF nr c1 [symmetric] i1 c2 [symmetric] i2 c3 [symmetric] i3
                                      ty nr3 c4 [symmetric] i4])
                with f4 show ?thesis by simp
              qed
            qed
          qed
        qed
      qed
    qed
  qed
qed


lemma parseFnHeader_success:
  assumes "parseFnHeader p = (Inr (name, args), p1)"
  shows "fns p1 = fns p \<and> (case fns p name of Some f \<Rightarrow> \<not> Defined f | None \<Rightarrow> True)"
proof -
  obtain r1 q1 where c1: "consumeOrFail IDENT p = (r1, q1)" by fastforce
  have f1: "fns q1 = fns p" using c1 by (rule fns_consumeOrFail)
  obtain r2 q2 where c2: "consumeOrFail LPAREN q1 = (r2, q2)" by fastforce
  have f2: "fns q2 = fns q1" using c2 by (rule fns_consumeOrFail)
  obtain r3 q3 where c3: "parseFnArgs [] q2 = (r3, q3)" by fastforce
  have f3: "fns q3 = fns q2" using c3 by (rule fns_parseFnArgs)
  from assms c1 c2 c3 have "p1 = q3 \<and> name = Literal (curToken q1)
      \<and> \<not> (case fns q1 (Literal (curToken q1)) of Some fnStmt \<Rightarrow> Defined fnStmt | None \<Rightarrow> False)"
    by (auto simp: parseFnHeader_def split: sum.splits if_splits)
  with f1 f2 f3 show ?thesis by (auto split: option.splits)
qed

lemma verifyArgs_None:
  "length es = length args \<Longrightarrow>
   (verifyArgs args es p = None)
     = (\<forall>i < length args. Verify (arg_Type (args ! i)) (es ! i) = None)"
proof (induction args es p rule: verifyArgs.induct)
  case (1 es p)
  then show ?case by simp
next
  case (2 arg args p)
  then show ?case by simp
next
  case (3 arg args e es p)
  then show ?case
    by (auto simp: less_Suc_eq_0_disj split: option.splits)
qed

lemma verifyArgs_Some:
  "length es = length args \<Longrightarrow> verifyArgs args es p = Some err \<Longrightarrow>
   \<exists>v. err = ErrParser (Line (curToken p)) (Column (curToken p)) (ErrVerify v)"
  by (induction args es p rule: verifyArgs.induct) (auto split: option.splits)

lemma reconcile_placeholder:
  assumes "fns p name = Some ph" and "\<not> Defined ph"
  shows "(reconcile name args p = None)
           = (length (ExpressionsToEvaluate ph) = length args
              \<and> (\<forall>i < length args.
                    Verify (arg_Type (args ! i)) (ExpressionsToEvaluate ph ! i) = None))"
    and "reconcile name args p = Some err \<Longrightarrow>
           \<exists>m. err = ErrParser (Line (curToken p)) (Column (curToken p)) m
                \<and> (m = ErrParamsDoNotMatch \<or> (\<exists>v. m = ErrVerify v))"
  using assms verifyArgs_None [of "ExpressionsToEvaluate ph" args p]
        verifyArgs_Some [of "ExpressionsToEvaluate ph" args p err]
  by (auto simp: reconcile_def split: if_splits)

lemma parseFnStatement_success:
  assumes "parseFnStatement n p = (Inr stmt, p')"
  shows "\<exists>k p1 p2 p3 p4 must.
           n = Suc k
           \<and> parseFnHeader p = (Inr (Name stmt, Args stmt), p1)
           \<and> reconcile (Name stmt) (Args stmt) p1 = None
           \<and> parseFnReturnType p1 = (Inr (must, ReturnType stmt), p2)
           \<and> consumeOrFail LBRACE p2 = (Inr (), p3)
           \<and> parseFnBody k (ReturnType stmt) [] (nextToken p3) = (Inr (Body stmt), p4)
           \<and> checkReturn must (ReturnType stmt) (Body stmt) p4 = None
           \<and> \<not> Defined stmt \<and> ExpressionsToEvaluate stmt = []
           \<and> p' = p4\<lparr>fns := (fns p4)(Name stmt \<mapsto> stmt)\<rparr>"
proof (cases n)
  case 0
  with assms show ?thesis by simp
next
  case (Suc k)
  with assms show ?thesis
    by (auto simp: Let_def split: prod.splits sum.splits option.splits)
qed


lemma fnCall_undefined_loop_records:
  "fnCall_undefined_loop n fnStmt fnName params p = (Inr e, p') \<Longrightarrow>
   \<exists>ps. e = FnCall fnName ps
        \<and> fns p' fnName = Some (FnStatement (Name fnStmt) (Args fnStmt) (Body fnStmt)
                                  (ReturnType fnStmt) (Defined fnStmt) ps)"
proof (induction n arbitrary: params p)
  case 0
  then show ?case by simp
next
  case (Suc n)
  obtain r1 p1 where pe: "parseExpression n LOWEST Void p = (r1, p1)" by fastforce
  show ?case
  proof (cases r1)
    case (Inl err)
    with Suc.prems pe show ?thesis by simp
  next
    case arg: (Inr arg)
    show ?thesis
    proof (cases "peekTokenIs p1 RPAREN")
      case True
      with Suc.prems pe arg show ?thesis by (auto simp: Let_def)
    next
      case False
      obtain r2 p2 where c: "consumeOrFail COMMA p1 = (r2, p2)" by fastforce
      show ?thesis
      proof (cases r2)
        case (Inl err)
        with Suc.prems pe arg False c show ?thesis by simp
      next
        case (Inr u)
        with Suc.prems pe arg False c
        have "fnCall_undefined_loop n fnStmt fnName (params @ [arg]) p2 = (Inr e, p')"
          by simp
        then show ?thesis by (rule Suc.IH)
      qed
    qed
  qed
qed

lemma parseFnCallExpression_first_call:
  assumes "parseFnCallExpression n (UnboundedIdentifier f) tt q = (Inr e, q')"
      and "fns q f = None"
  shows "\<exists>ps. e = FnCall f ps \<and> fns q' f = Some (FnStatement f [] [] tt False ps)"
proof (cases n)
  case 0
  with assms show ?thesis by simp
next
  case (Suc k)
  show ?thesis
  proof (cases "Type (curToken q) = RPAREN")
    case True
    with assms Suc show ?thesis by (auto simp: Let_def)
  next
    case False
    with assms Suc
    have "fnCall_undefined_loop k (FnStatement f [] [] tt False []) f [] q = (Inr e, q')"
      by (simp add: Let_def)
    from fnCall_undefined_loop_records [OF this] show ?thesis by simp
  qed
qed


text \<open>
  C2. A call to a function that \<^verbatim>\<open>p.fns\<close> does not have yet records a placeholder with
  \<^verbatim>\<open>Defined\<close> false and, as \<^verbatim>\<open>ExpressionsToEvaluate\<close>, the expressions of the call. A later
  declaration of that name is parsed successfully only if the number of recorded
  expressions equals the number of declared parameters and each recorded expression
  verifies against the type of the parameter at its index. If either fails, the
  declaration fails with an error value (the mismatch of the numbers, or the error of
  \<^verbatim>\<open>Verify\<close>), and so does the loop of \<^verbatim>\<open>ParseProgram\<close> standing at that declaration, whatever
  it has collected, and \<^verbatim>\<open>ParseProgram\<close> itself: an error and no program.
\<close>

theorem forward_reference_reconciled:
  "(parseFnCallExpression n (UnboundedIdentifier f) tt q = (Inr e, q') \<and> fns q f = None \<longrightarrow>
      (\<exists>ps. e = FnCall f ps \<and> fns q' f = Some (FnStatement f [] [] tt False ps)))
   \<and> (parseFnStatement n p = (Inr stmt, p') \<and> fns p (Name stmt) = Some ph \<longrightarrow>
        length (ExpressionsToEvaluate ph) = length (Args stmt)
        \<and> (\<forall>i < length (Args stmt).
              Verify (arg_Type (Args stmt ! i)) (ExpressionsToEvaluate ph ! i) = None))
   \<and> (Type (curToken p) = FN \<and> parseFnHeader p = (Inr (name, args), p1)
        \<and> fns p name = Some ph
        \<and> \<not> (length (ExpressionsToEvaluate ph) = length args
               \<and> (\<forall>i < length args.
                     Verify (arg_Type (args ! i)) (ExpressionsToEvaluate ph ! i) = None)) \<longrightarrow>
        (\<exists>m. (m = ErrParamsDoNotMatch \<or> (\<exists>v. m = ErrVerify v))
              \<and> parseFnStatement (Suc n) p
                  = (Inl (ErrParser (Line (curToken p1)) (Column (curToken p1)) m), p1)
              \<and> ParseProgram_loop (Suc (Suc (Suc n))) stmts p
                  = (Inl (ErrParser (Line (curToken p1)) (Column (curToken p1)) m), p1)
              \<and> ParseProgram (Suc (Suc (Suc n))) p
                  = (Inl (ErrParser (Line (curToken p1)) (Column (curToken p1)) m), p1)))"
proof (intro conjI impI)
  assume "parseFnCallExpression n (UnboundedIdentifier f) tt q = (Inr e, q') \<and> fns q f = None"
  then show "\<exists>ps. e = FnCall f ps \<and> fns q' f = Some (FnStatement f [] [] tt False ps)"
    using parseFnCallExpression_first_call by blast
next
  assume a: "parseFnStatement n p = (Inr stmt, p') \<and> fns p (Name stmt) = Some ph"
  then obtain k q1 where hdr: "parseFnHeader p = (Inr (Name stmt, Args stmt), q1)"
      and rec: "reconcile (Name stmt) (Args stmt) q1 = None"
    using parseFnStatement_success [of n p stmt p'] by blast
  from parseFnHeader_success [OF hdr] a
  have ph: "fns q1 (Name stmt) = Some ph" and nd: "\<not> Defined ph" by auto
  from reconcile_placeholder(1) [OF ph nd, of "Args stmt"] rec
  have "length (ExpressionsToEvaluate ph) = length (Args stmt)
        \<and> (\<forall>i < length (Args stmt).
              Verify (arg_Type (Args stmt ! i)) (ExpressionsToEvaluate ph ! i) = None)"
    by simp
  then show "length (ExpressionsToEvaluate ph) = length (Args stmt)"
    and "\<forall>i < length (Args stmt).
              Verify (arg_Type (Args stmt ! i)) (ExpressionsToEvaluate ph ! i) = None"
    by simp_all
next
  assume a: "Type (curToken p) = FN \<and> parseFnHeader p = (Inr (name, args), p1)
        \<and> fns p name = Some ph
        \<and> \<not> (length (ExpressionsToEvaluate ph) = length args
               \<and> (\<forall>i < length args.
                     Verify (arg_Type (args ! i)) (ExpressionsToEvaluate ph ! i) = None))"
  then have hdr: "parseFnHeader p = (Inr (name, args), p1)" and fn: "Type (curToken p) = FN"
    by simp_all
  from parseFnHeader_success [OF hdr] a
  have ph: "fns p1 name = Some ph" and nd: "\<not> Defined ph" by auto
  from reconcile_placeholder(1) [OF ph nd, of args] a
  have "reconcile name args p1 \<noteq> None" by blast
  then obtain err where err: "reconcile name args p1 = Some err" by auto
  from reconcile_placeholder(2) [OF ph nd err]
  obtain m where m: "err = ErrParser (Line (curToken p1)) (Column (curToken p1)) m"
      "m = ErrParamsDoNotMatch \<or> (\<exists>v. m = ErrVerify v)"
    by blast
  have fs: "parseFnStatement (Suc n) p
              = (Inl (ErrParser (Line (curToken p1)) (Column (curToken p1)) m), p1)"
    using hdr err m(1) by simp
  have st: "parseStatement (Suc (Suc n)) Void p
              = (Inl (ErrParser (Line (curToken p1)) (Column (curToken p1)) m), p1)"
    using fn fs by simp
  have lp: "ParseProgram_loop (Suc (Suc (Suc n))) stmts p
              = (Inl (ErrParser (Line (curToken p1)) (Column (curToken p1)) m), p1)" for stmts
    using fn st by simp
  have "ParseProgram (Suc (Suc (Suc n))) p
              = (Inl (ErrParser (Line (curToken p1)) (Column (curToken p1)) m), p1)"
    using lp [of "[]"] by (simp add: ParseProgram_def)
  with fs lp m(2) show "\<exists>m. (m = ErrParamsDoNotMatch \<or> (\<exists>v. m = ErrVerify v))
              \<and> parseFnStatement (Suc n) p
                  = (Inl (ErrParser (Line (curToken p1)) (Column (curToken p1)) m), p1)
              \<and> ParseProgram_loop (Suc (Suc (Suc n))) stmts p
                  = (Inl (ErrParser (Line (curToken p1)) (Column (curToken p1)) m), p1)
              \<and> ParseProgram (Suc (Suc (Suc n))) p
                  = (Inl (ErrParser (Line (curToken p1)) (Column (curToken p1)) m), p1)"
    by blast
qed



text \<open>
  On \<^verbatim>\<open>greet("a"); fn greet(n: int32) {}\<close> the recorded string literal does not verify as
  \<^verbatim>\<open>Int32\<close> and the parse fails; with \<^verbatim>\<open>n: string\<close> it succeeds.
\<close>

theorem forward_reference_reconciled_witness:
  "fns (nextToken (nextToken (NewParser greet_int32_tokens))) ''greet'' = None
   \<and> fst (parseFnCallExpression 5 (UnboundedIdentifier ''greet'') Void
             (nextToken (nextToken (NewParser greet_int32_tokens))))
       = Inr (FnCall ''greet'' [StringLiteral ''a''])
   \<and> fns (snd (parseFnCallExpression 5 (UnboundedIdentifier ''greet'') Void
                  (nextToken (nextToken (NewParser greet_int32_tokens))))) ''greet''
       = Some (FnStatement ''greet'' [] [] Void False [StringLiteral ''a''])
   \<and> Type (curToken (nextToken (snd (parseStatement 6 Void (NewParser greet_int32_tokens)))))
       = FN
   \<and> fns (nextToken (snd (parseStatement 6 Void (NewParser greet_int32_tokens)))) ''greet''
       = Some (FnStatement ''greet'' [] [] Void False [StringLiteral ''a''])
   \<and> fst (parseFnHeader (nextToken (snd (parseStatement 6 Void (NewParser greet_int32_tokens)))))
       = Inr (''greet'', [\<lparr>arg_Name = ''n'', arg_Type = Int32\<rparr>])
   \<and> Verify Int32 (StringLiteral ''a'') = Some ErrWrongTypeAssigment
   \<and> (\<exists>m. fst (ParseProgram_loop 3 []
                  (nextToken (snd (parseStatement 6 Void (NewParser greet_int32_tokens)))))
              = Inl (ErrParser 1 29 m))
   \<and> fst (ParseProgram 20 (NewParser greet_int32_tokens))
       = Inl (ErrParser 1 29 (ErrVerify ErrWrongTypeAssigment))
   \<and> fst (parseFnStatement 3
             (nextToken (snd (parseStatement 6 Void (NewParser greet_string_tokens)))))
       = Inr (FnStatement ''greet'' [\<lparr>arg_Name = ''n'', arg_Type = String\<rparr>] [] Void False [])
   \<and> Verify String (StringLiteral ''a'') = None
   \<and> fst (ParseProgram 20 (NewParser greet_string_tokens))
       = Inr (Program
           [ExpressionNode (FnCall ''greet'' [StringLiteral ''a'']),
            FnStatementNode
              (FnStatement ''greet'' [\<lparr>arg_Name = ''n'', arg_Type = String\<rparr>] [] Void False [])])"
proof -
  define Q where "Q = nextToken (nextToken (NewParser greet_int32_tokens))"
  define P where "P = nextToken (snd (parseStatement 6 Void (NewParser greet_int32_tokens)))"
  define R where "R = nextToken (snd (parseStatement 6 Void (NewParser greet_string_tokens)))"
  define ph where "ph = FnStatement ''greet'' [] [] Void False [StringLiteral ''a'']"
  define args where "args = [\<lparr>arg_Name = ''n'', arg_Type = Int32\<rparr>]"
  define stmt where
    "stmt = FnStatement ''greet'' [\<lparr>arg_Name = ''n'', arg_Type = String\<rparr>] [] Void False []"
  have q0: "fns Q ''greet'' = None"
    unfolding Q_def by code_simp
  have q1: "fst (parseFnCallExpression 5 (UnboundedIdentifier ''greet'') Void Q)
              = Inr (FnCall ''greet'' [StringLiteral ''a''])"
    unfolding Q_def by code_simp
  have pfn: "Type (curToken P) = FN"
    unfolding P_def by code_simp
  have pph: "fns P ''greet'' = Some ph"
    unfolding P_def ph_def by code_simp
  have phd: "fst (parseFnHeader P) = Inr (''greet'', args)"
    unfolding P_def args_def by code_simp
  have pl: "Line (curToken (snd (parseFnHeader P))) = 1"
    and pc: "Column (curToken (snd (parseFnHeader P))) = 29"
    unfolding P_def by code_simp+
  have v1: "Verify Int32 (StringLiteral ''a'') = Some ErrWrongTypeAssigment"
    by simp
  have full1: "fst (ParseProgram 20 (NewParser greet_int32_tokens))
                 = Inl (ErrParser 1 29 (ErrVerify ErrWrongTypeAssigment))"
    by code_simp
  have rph: "fns R ''greet'' = Some ph"
    unfolding R_def ph_def by code_simp
  have rst: "fst (parseFnStatement 3 R) = Inr stmt"
    unfolding R_def stmt_def by code_simp
  have full2: "fst (ParseProgram 20 (NewParser greet_string_tokens))
       = Inr (Program [ExpressionNode (FnCall ''greet'' [StringLiteral ''a'']),
                       FnStatementNode stmt])"
    unfolding stmt_def by code_simp
  \<comment> \<open>the call site\<close>
  have call: "parseFnCallExpression 5 (UnboundedIdentifier ''greet'') Void Q
                = (Inr (FnCall ''greet'' [StringLiteral ''a'']),
                   snd (parseFnCallExpression 5 (UnboundedIdentifier ''greet'') Void Q))"
    using q1 by (metis prod.collapse)
  from forward_reference_reconciled
         [of 5 "''greet''" Void Q "FnCall ''greet'' [StringLiteral ''a'']"
             "snd (parseFnCallExpression 5 (UnboundedIdentifier ''greet'') Void Q)"]
       call q0
  have c1: "fns (snd (parseFnCallExpression 5 (UnboundedIdentifier ''greet'') Void Q)) ''greet''
              = Some ph"
    unfolding ph_def by auto
  \<comment> \<open>the declaration whose parameter type rejects the recorded expression\<close>
  have hdr: "parseFnHeader P = (Inr (''greet'', args), snd (parseFnHeader P))"
    using phd by (metis prod.collapse)
  have bad: "\<not> (length (ExpressionsToEvaluate ph) = length args
               \<and> (\<forall>i < length args.
                     Verify (arg_Type (args ! i)) (ExpressionsToEvaluate ph ! i) = None))"
    by (simp add: ph_def args_def)
  from forward_reference_reconciled
         [where p = P and name = "''greet''" and args = args
            and ?p1.0 = "snd (parseFnHeader P)" and ph = ph and n = 0 and stmts = "[]"]
       pfn hdr pph bad
  have c2: "\<exists>m. fst (ParseProgram_loop 3 [] P) = Inl (ErrParser 1 29 m)"
    by (auto simp: pl pc numeral_3_eq_3)
  \<comment> \<open>the declaration that matches\<close>
  have ok: "parseFnStatement 3 R = (Inr stmt, snd (parseFnStatement 3 R))"
    using rst by (metis prod.collapse)
  have "fns R (Name stmt) = Some ph"
    using rph by (simp add: stmt_def)
  with forward_reference_reconciled
         [where n = 3 and p = R and stmt = stmt and p' = "snd (parseFnStatement 3 R)" and ph = ph]
       ok
  have "\<forall>i < length (Args stmt).
          Verify (arg_Type (Args stmt ! i)) (ExpressionsToEvaluate ph ! i) = None"
    by blast
  then have c3: "Verify String (StringLiteral ''a'') = None"
    by (simp add: stmt_def ph_def)
  from q0 q1 c1 pfn pph phd v1 c2 full1 rst c3 full2 show ?thesis
    unfolding Q_def P_def R_def ph_def args_def stmt_def by (simp only: simp_thms)
qed















text \<open>
  The \<^verbatim>\<open>nil\<close> value is the one case without a verification: a return with no expression
  before the end of the statement, as in \<^verbatim>\<open>fn one(): int32 { return ;; }\<close>, is a
  \<^verbatim>\<open>ReturnStatement\<close> of the declared type with a \<^verbatim>\<open>nil\<close> value, and the declaration is
  accepted.
\<close>

lemma return_without_expression_accepted:
  "fst (ParseProgram (20 + k) (NewParser one_nil_tokens))
     = Inr (Program
         [FnStatementNode
            (FnStatement ''one'' []
               [ReturnStatementNode \<lparr>rs_Type = Int32, rs_Value = NilExpression\<rparr>]
               Int32 False [])])"
proof -
  have at20: "fst (ParseProgram 20 (NewParser one_nil_tokens))
     = Inr (Program
         [FnStatementNode
            (FnStatement ''one'' []
               [ReturnStatementNode \<lparr>rs_Type = Int32, rs_Value = NilExpression\<rparr>]
               Int32 False [])])"
    by code_simp
  then have "finished (ParseProgram 20 (NewParser one_nil_tokens))"
    by (simp add: finished_def)
  from ParseProgram_fuel_add [OF this, of k] at20 show ?thesis by simp
qed






end
